theory Spec2Isabelle
  imports Main "HOL-Library.Word"
begin

section \<open>The collaborators of package lhm\<close>

text \<open>
  Package lhm keeps two Go maps from registration names to pointers: one to
  \<^verbatim>\<open>*reopen.FileWriter\<close>, one to \<^verbatim>\<open>*logrus.Logger\<close>. Both kinds of object are mutated
  through the pointers (a writer is reopened, a logger's level is toggled), and the same
  pointer may be registered under several names, so the objects live in an explicit store
  and the maps hold addresses. A Go pointer is \<open>nil\<close> or the address of an allocated
  object.
\<close>

datatype pointer = nil | Addr nat

text \<open>A Go \<^verbatim>\<open>error\<close> value is identified with its message.\<close>

type_synonym error = string

subsection \<open>logrus levels\<close>

text \<open>
  \<^verbatim>\<open>logrus.Level\<close> is a \<^verbatim>\<open>uint32\<close>; the library declares seven levels with \<^verbatim>\<open>iota\<close>,
  from \<^verbatim>\<open>PanicLevel\<close> (0, least verbose) to \<^verbatim>\<open>TraceLevel\<close> (6, most verbose). The
  trace level and the configurable \<^verbatim>\<open>ExitFunc\<close> that \<^verbatim>\<open>Init\<close> assigns were introduced by
  the same release of the library.
\<close>

type_synonym Level = "32 word"

definition PanicLevel :: Level where "PanicLevel = 0"
definition FatalLevel :: Level where "FatalLevel = 1"
definition ErrorLevel :: Level where "ErrorLevel = 2"
definition WarnLevel :: Level where "WarnLevel = 3"
definition InfoLevel :: Level where "InfoLevel = 4"
definition DebugLevel :: Level where "DebugLevel = 5"
definition TraceLevel :: Level where "TraceLevel = 6"

definition AllLevels :: "Level list" where
  "AllLevels = [PanicLevel, FatalLevel, ErrorLevel, WarnLevel, InfoLevel, DebugLevel, TraceLevel]"

subsection \<open>File writers\<close>

text \<open>
  A \<^verbatim>\<open>reopen.FileWriter\<close> holds the path it was created for and the currently open
  \<^verbatim>\<open>*os.File\<close> (here: the descriptor the operating system handed out, \<open>None\<close> for
  \<open>nil\<close>). \<^verbatim>\<open>Reopen\<close> closes the file and opens the path again; what the operating system
  answers is an input of the model: an error, or a new descriptor. After a failed reopen
  the writer holds no file.
\<close>

record FileWriter =
  fw_name :: string
  fw_f :: "nat option"

definition FileWriter_Reopen :: "error + nat \<Rightarrow> FileWriter \<Rightarrow> error option \<times> FileWriter" where
  "FileWriter_Reopen os_answer fw =
     (case os_answer of
        Inl err \<Rightarrow> (Some err, fw\<lparr>fw_f := None\<rparr>)
      | Inr fd \<Rightarrow> (None, fw\<lparr>fw_f := Some fd\<rparr>))"

subsection \<open>Loggers\<close>

text \<open>
  The fields of \<^verbatim>\<open>logrus.Logger\<close> that the package reads or assigns. \<^verbatim>\<open>Out\<close> is an
  \<^verbatim>\<open>io.Writer\<close>: the library default \<^verbatim>\<open>os.Stderr\<close>, the package-level \<^verbatim>\<open>reopen.Stderr\<close>, or
  a file writer (by address). \<^verbatim>\<open>ExitFunc\<close> is \<^verbatim>\<open>os.Exit\<close> by default; \<^verbatim>\<open>Init\<close> replaces it by
  a function with an empty body.
\<close>

datatype Writer = os_Stderr | reopen_Stderr | FileOut nat

record TextFormatter =
  DisableColors :: bool
  FullTimestamp :: bool

datatype ExitFn = os_Exit | func_empty

record Logger =
  Out :: Writer
  Formatter :: TextFormatter
  Level :: Level
  ExitFunc :: ExitFn

text \<open>\<^verbatim>\<open>logrus.New()\<close>: standard error, default text formatter, info level, \<^verbatim>\<open>os.Exit\<close>.\<close>

definition logrus_New :: Logger where
  "logrus_New =
     \<lparr>Out = os_Stderr,
      Formatter = \<lparr>DisableColors = False, FullTimestamp = False\<rparr>,
      Level = InfoLevel,
      ExitFunc = os_Exit\<rparr>"

text \<open>\<^verbatim>\<open>IsLevelEnabled\<close>: a record of level \<open>lvl\<close> passes the filter when \<^verbatim>\<open>logger.level() >= lvl\<close>.\<close>

definition IsLevelEnabled :: "Logger \<Rightarrow> Level \<Rightarrow> bool" where
  "IsLevelEnabled lg lvl \<longleftrightarrow> lvl \<le> Level lg"

section \<open>The state\<close>

text \<open>
  Everything the package does beyond changing its own fields is recorded, in order, in a
  trace: a record written by a logger (logger address, the sink it went to, the record's
  level and message), a call of \<^verbatim>\<open>FileWriter.Reopen\<close> with its answer, a call of the abort
  callback, a call of a logger's \<^verbatim>\<open>ExitFunc\<close>, the rename attempted by \<^verbatim>\<open>Open\<close> and the
  registration of a channel with \<^verbatim>\<open>signal.Notify\<close>.
\<close>

datatype event =
    Written nat Writer Level string
  | ReopenCall nat "error + nat"
  | AbortCall error
  | ExitCall nat int
  | Rename string string
  | Notify nat

text \<open>
  The struct, field by field. A channel is identified by a number; the zero value of the
  \<^verbatim>\<open>signal\<close> field is the nil channel. Both maps of every value built by \<^verbatim>\<open>New\<close> or \<^verbatim>\<open>Init\<close>
  are allocated with \<^verbatim>\<open>make\<close>. The embedded \<^verbatim>\<open>sync.RWMutex\<close> is not modelled: the
  operations are taken one at a time, each acquiring and releasing the lock it needs.
\<close>

record LogHandleMap =
  hmap :: "string \<rightharpoonup> pointer"
  lmap :: "string \<rightharpoonup> pointer"
  bp :: string
  signal :: "nat option"
  configured :: bool

record world =
  lhm :: LogHandleMap
  writers :: "FileWriter list"
  loggers :: "Logger list"
  chans :: nat
  trace :: "event list"

text \<open>How a call ends: it returns, it panics (a nil pointer is dereferenced), or the process exits.\<close>

datatype 'a result = Return 'a | Panic | Exit int

text \<open>Reading a Go map yields the zero value, here \<open>nil\<close>, for a missing key.\<close>

definition map_get :: "(string \<rightharpoonup> pointer) \<Rightarrow> string \<Rightarrow> pointer" where
  "map_get m key = (case m key of None \<Rightarrow> nil | Some p \<Rightarrow> p)"

text \<open>
  Dereferencing yields the address and the object. Go pointers never dangle; an address
  outside the store is treated like \<open>nil\<close>.
\<close>

definition deref :: "'a list \<Rightarrow> pointer \<Rightarrow> (nat \<times> 'a) option" where
  "deref h p = (case p of nil \<Rightarrow> None | Addr a \<Rightarrow> if a < length h then Some (a, h ! a) else None)"

definition emit :: "event \<Rightarrow> world \<Rightarrow> world" where
  "emit ev w = w\<lparr>trace := trace w @ [ev]\<rparr>"

definition upd_logger :: "nat \<Rightarrow> (Logger \<Rightarrow> Logger) \<Rightarrow> world \<Rightarrow> world" where
  "upd_logger a g w = w\<lparr>loggers := (loggers w)[a := g (loggers w ! a)]\<rparr>"

subsection \<open>Methods of a logger at address \<open>a\<close>\<close>

text \<open>\<^verbatim>\<open>Logger.Log\<close>: the record is written to \<^verbatim>\<open>Out\<close> when its level is enabled.\<close>

definition Logger_Log :: "nat \<Rightarrow> Level \<Rightarrow> string \<Rightarrow> world \<Rightarrow> world" where
  "Logger_Log a lvl msg w =
     (let lg = loggers w ! a
      in if IsLevelEnabled lg lvl then emit (Written a (Out lg) lvl msg) w else w)"

definition Infoln :: "nat \<Rightarrow> string \<Rightarrow> world \<Rightarrow> world" where
  "Infoln a msg w = Logger_Log a InfoLevel msg w"

text \<open>\<^verbatim>\<open>Logger.Printf\<close> is \<^verbatim>\<open>Infof\<close>; the argument is the formatted message.\<close>

definition Logger_Printf :: "nat \<Rightarrow> string \<Rightarrow> world \<Rightarrow> world" where
  "Logger_Printf a msg w = Logger_Log a InfoLevel msg w"

definition SetLevel :: "nat \<Rightarrow> Level \<Rightarrow> world \<Rightarrow> world" where
  "SetLevel a lvl w = upd_logger a (\<lambda>lg. lg\<lparr>Level := lvl\<rparr>) w"

text \<open>\<^verbatim>\<open>Logger.Exit\<close> calls \<^verbatim>\<open>ExitFunc\<close>; only \<^verbatim>\<open>os.Exit\<close> ends the process.\<close>

definition Logger_Exit :: "nat \<Rightarrow> int \<Rightarrow> world \<Rightarrow> unit result \<times> world" where
  "Logger_Exit a code w =
     (let w1 = emit (ExitCall a code) w
      in case ExitFunc (loggers w ! a) of
           os_Exit \<Rightarrow> (Exit code, w1)
         | func_empty \<Rightarrow> (Return (), w1))"

text \<open>\<^verbatim>\<open>Logger.Fatal\<close>: log at fatal level, then \<^verbatim>\<open>Exit(1)\<close>.\<close>

definition Logger_Fatal :: "nat \<Rightarrow> string \<Rightarrow> world \<Rightarrow> unit result \<times> world" where
  "Logger_Fatal a msg w = Logger_Exit a 1 (Logger_Log a FatalLevel msg w)"

section \<open>Construction: \<^verbatim>\<open>New\<close>, \<^verbatim>\<open>Init\<close>, \<^verbatim>\<open>Setup\<close>\<close>

text \<open>\<^verbatim>\<open>make(chan os.Signal, 1)\<close> followed by \<^verbatim>\<open>signal.Notify(sc, syscall.SIGUSR2)\<close>.\<close>

definition make_chan :: "world \<Rightarrow> nat \<times> world" where
  "make_chan w = (chans w, emit (Notify (chans w)) (w\<lparr>chans := Suc (chans w)\<rparr>))"

text \<open>\<^verbatim>\<open>New\<close> returns the map and a pointer to the channel; the model returns the channel.\<close>

definition New :: "string \<Rightarrow> world \<Rightarrow> nat \<times> world" where
  "New basepath w =
     (case make_chan w of (sc, w1) \<Rightarrow>
        (sc, w1\<lparr>lhm := \<lparr>hmap = Map.empty, lmap = Map.empty, bp = basepath,
                         signal = Some sc, configured = True\<rparr>\<rparr>))"

text \<open>\<^verbatim>\<open>Init\<close>; \<open>now\<close> is \<^verbatim>\<open>time.Now().UTC().Format(time.RFC3339)\<close>.\<close>

definition Init :: "string \<Rightarrow> world \<Rightarrow> world" where
  "Init now w =
     (let nl = length (loggers w);
          w1 = w\<lparr>loggers := loggers w @ [logrus_New]\<rparr>;
          w2 = upd_logger nl (\<lambda>lg. lg\<lparr>Out := reopen_Stderr\<rparr>) w1;
          w3 = upd_logger nl (\<lambda>lg. lg\<lparr>ExitFunc := func_empty\<rparr>) w2;
          w4 = upd_logger nl
                 (\<lambda>lg. lg\<lparr>Formatter := \<lparr>DisableColors = True, FullTimestamp = True\<rparr>\<rparr>) w3;
          w5 = Infoln nl (''Started early logging at '' @ now) w4;
          w6 = SetLevel nl DebugLevel w5
      in w6\<lparr>lhm := \<lparr>hmap = Map.empty, lmap = Map.empty(''__early'' \<mapsto> Addr nl), bp = [],
                      signal = None, configured = False\<rparr>\<rparr>)"

text \<open>
  \<^verbatim>\<open>Setup\<close> returns a pointer to a channel variable (\<^verbatim>\<open>&x.signal\<close> or \<^verbatim>\<open>&sc\<close>); the model
  returns the channel that variable holds.
\<close>

definition Setup :: "string \<Rightarrow> world \<Rightarrow> nat option result \<times> world" where
  "Setup basepath w =
     (if configured (lhm w) then (Return (signal (lhm w)), w)
      else case deref (loggers w) (map_get (lmap (lhm w)) ''__early'') of
        None \<Rightarrow> (Panic, w)
      | Some (a, lg) \<Rightarrow>
         (case Logger_Exit a 0 w of
            (Return u, w1) \<Rightarrow>
              (let w2 = w1\<lparr>lhm := (lhm w1)\<lparr>lmap := (lmap (lhm w1))(''__early'' := None)\<rparr>\<rparr>;
                   w3 = w2\<lparr>lhm := (lhm w2)\<lparr>bp := basepath\<rparr>\<rparr>
               in case make_chan w3 of (sc, w4) \<Rightarrow>
                    (let w5 = w4\<lparr>lhm := (lhm w4)\<lparr>signal := Some sc\<rparr>\<rparr>;
                         w6 = w5\<lparr>lhm := (lhm w5)\<lparr>configured := True\<rparr>\<rparr>
                     in (Return (Some sc), w6)))
          | (Panic, w1) \<Rightarrow> (Panic, w1)
          | (Exit code, w1) \<Rightarrow> (Exit code, w1)))"

section \<open>Early logging\<close>

text \<open>The argument is the formatted message (\<^verbatim>\<open>Sprintf\<close> of format and arguments).\<close>

definition EarlyPrintf :: "string \<Rightarrow> world \<Rightarrow> unit result \<times> world" where
  "EarlyPrintf msg w =
     (if configured (lhm w) then (Return (), w)
      else case deref (loggers w) (map_get (lmap (lhm w)) ''__early'') of
        None \<Rightarrow> (Panic, w)
      | Some (a, lg) \<Rightarrow> (Return (), Logger_Printf a msg w))"

definition EarlyFatal :: "string \<Rightarrow> world \<Rightarrow> unit result \<times> world" where
  "EarlyFatal msg w =
     (if configured (lhm w) then (Return (), w)
      else case deref (loggers w) (map_get (lmap (lhm w)) ''__early'') of
        None \<Rightarrow> (Panic, w)
      | Some (a, lg) \<Rightarrow> Logger_Fatal a msg w)"

section \<open>The registry: \<^verbatim>\<open>Add\<close>, \<^verbatim>\<open>GetFileHandle\<close>, \<^verbatim>\<open>GetLogger\<close>, \<^verbatim>\<open>Del\<close>\<close>

definition Add :: "string \<Rightarrow> pointer \<Rightarrow> pointer \<Rightarrow> world \<Rightarrow> world" where
  "Add key fh lg w =
     (let w1 = w\<lparr>lhm := (lhm w)\<lparr>hmap := (hmap (lhm w))(key \<mapsto> fh)\<rparr>\<rparr>
      in w1\<lparr>lhm := (lhm w1)\<lparr>lmap := (lmap (lhm w1))(key \<mapsto> lg)\<rparr>\<rparr>)"

definition GetFileHandle :: "string \<Rightarrow> world \<Rightarrow> pointer" where
  "GetFileHandle key w = map_get (hmap (lhm w)) key"

definition GetLogger :: "string \<Rightarrow> world \<Rightarrow> pointer" where
  "GetLogger key w = map_get (lmap (lhm w)) key"


definition getLoggerNolock :: "string \<Rightarrow> world \<Rightarrow> pointer" where
  "getLoggerNolock key w = map_get (lmap (lhm w)) key"

section \<open>\<^verbatim>\<open>Open\<close>\<close>

text \<open>
  What \<^verbatim>\<open>Open\<close> takes from outside: \<^verbatim>\<open>filepath.Join\<close>, the two readings of the clock
  (formatted), and the answer of the operating system to the open in
  \<^verbatim>\<open>reopen.NewFileWriter\<close>. The result of the rename is discarded by the code.
\<close>

record open_env =
  Join :: "string \<Rightarrow> string \<Rightarrow> string"
  now_rename :: string
  NewFileWriter_answer :: "error + nat"
  now_started :: string

definition Open :: "open_env \<Rightarrow> string \<Rightarrow> Level \<Rightarrow> world \<Rightarrow> error option \<times> world" where
  "Open env fname lvl w =
     (let w0 = emit (Rename (Join env (bp (lhm w)) (fname @ ''.log''))
                            (Join env (bp (lhm w)) (fname @ ''.log.'' @ now_rename env))) w
      in case NewFileWriter_answer env of
        Inl err \<Rightarrow> (Some err, w0)
      | Inr fd \<Rightarrow>
         (let fh = length (writers w0);
              w1 = w0\<lparr>writers := writers w0 @
                      [\<lparr>fw_name = Join env (bp (lhm w)) (fname @ ''.log''), fw_f = Some fd\<rparr>]\<rparr>;
              nl = length (loggers w1);
              w2 = w1\<lparr>loggers := loggers w1 @ [logrus_New]\<rparr>;
              w3 = upd_logger nl (\<lambda>lg. lg\<lparr>Out := FileOut fh\<rparr>) w2;
              w4 = upd_logger nl
                     (\<lambda>lg. lg\<lparr>Formatter := \<lparr>DisableColors = True, FullTimestamp = True\<rparr>\<rparr>) w3;
              w5 = Infoln nl (''Started logfile `'' @ fname @ ''` at '' @ now_started env) w4;
              w6 = SetLevel nl lvl w5
          in (None, Add fname (Addr fh) (Addr nl) w6)))"

section \<open>\<^verbatim>\<open>Reopen\<close>\<close>

text \<open>\<^verbatim>\<open>strings.HasPrefix\<close>.\<close>

definition HasPrefix :: "string \<Rightarrow> string \<Rightarrow> bool" where
  "HasPrefix s pfx \<longleftrightarrow> length pfx \<le> length s \<and> take (length pfx) s = pfx"

text \<open>
  What one pass takes from outside: the order in which \<^verbatim>\<open>range\<close> yields the keys of the
  handle map (Go leaves it unspecified), and, for the visit of each name, the answer of the
  operating system to the reopen and the reading of the clock.
\<close>

record pass_env =
  order :: "string list"
  Reopen_answer :: "string \<Rightarrow> error + nat"
  now_at :: "string \<Rightarrow> string"

datatype outcome = Completed | Aborted error | Panicked

text \<open>
  The labelled loop \<^verbatim>\<open>fileloop\<close> over the names still to visit. The abort callback belongs to
  the caller; its call is recorded and it is taken to return.
\<close>

fun fileloop :: "string \<Rightarrow> pass_env \<Rightarrow> string list \<Rightarrow> world \<Rightarrow> outcome \<times> world" where
  "fileloop ignorePrefix env [] w = (Completed, w)"
| "fileloop ignorePrefix env (name # rest) w =
     (if HasPrefix name ignorePrefix then fileloop ignorePrefix env rest w
      else case deref (writers w) (map_get (hmap (lhm w)) name) of
        None \<Rightarrow> (Panicked, w)
      | Some (fa, fw) \<Rightarrow>
         (case FileWriter_Reopen (Reopen_answer env name) fw of
            (Some err, fw') \<Rightarrow>
              (Aborted err,
               emit (AbortCall err)
                 (emit (ReopenCall fa (Reopen_answer env name)) (w\<lparr>writers := (writers w)[fa := fw']\<rparr>)))
          | (None, fw') \<Rightarrow>
              (let w1 = emit (ReopenCall fa (Reopen_answer env name))
                          (w\<lparr>writers := (writers w)[fa := fw']\<rparr>)
               in case deref (loggers w1) (getLoggerNolock name w1) of
                 None \<Rightarrow> (Panicked, w1)
               | Some (la, lg) \<Rightarrow>
                  (let lvl = Level lg;
                       w2 = SetLevel la InfoLevel w1;
                       w3 = Infoln la (''Reopened logfile `'' @ name @ ''` for logrotate at ''
                                        @ now_at env name) w2;
                       w4 = SetLevel la lvl w3
                   in fileloop ignorePrefix env rest w4))))"

text \<open>One pass: the body of \<^verbatim>\<open>case <-x.signal\<close>.\<close>

definition pass :: "string \<Rightarrow> pass_env \<Rightarrow> world \<Rightarrow> outcome \<times> world" where
  "pass ignorePrefix env w = fileloop ignorePrefix env (order env) w"

text \<open>
  \<^verbatim>\<open>Reopen\<close> never returns. The model runs it on the triggers delivered so far, one
  \<open>pass_env\<close> for each, and yields the state in which the loop then waits, or in which the
  goroutine panicked. Receiving from a nil channel blocks forever, so no trigger is taken.
\<close>

datatype loop_state = Waiting | Crashed

fun Reopen :: "string \<Rightarrow> pass_env list \<Rightarrow> world \<Rightarrow> loop_state \<times> world" where
  "Reopen ignorePrefix [] w = (Waiting, w)"
| "Reopen ignorePrefix (env # envs) w =
     (case signal (lhm w) of
        None \<Rightarrow> (Waiting, w)
      | Some c \<Rightarrow>
         (case pass ignorePrefix env w of
            (Panicked, w') \<Rightarrow> (Crashed, w')
          | (Completed, w') \<Rightarrow> Reopen ignorePrefix envs w'
          | (Aborted err, w') \<Rightarrow> Reopen ignorePrefix envs w'))"

section \<open>Vocabulary of the statements\<close>

text \<open>
  Step 3 and step 4 of the specification's description of \<^verbatim>\<open>Open\<close>, in the order the
  specification gives them: the logger is set to the requested level, then the marker is
  logged. Everything else is as in \<open>Open\<close>.
\<close>

definition Open_level_first :: "open_env \<Rightarrow> string \<Rightarrow> Level \<Rightarrow> world \<Rightarrow> error option \<times> world" where
  "Open_level_first env fname lvl w =
     (let w0 = emit (Rename (Join env (bp (lhm w)) (fname @ ''.log''))
                            (Join env (bp (lhm w)) (fname @ ''.log.'' @ now_rename env))) w
      in case NewFileWriter_answer env of
        Inl err \<Rightarrow> (Some err, w0)
      | Inr fd \<Rightarrow>
         (let fh = length (writers w0);
              w1 = w0\<lparr>writers := writers w0 @
                      [\<lparr>fw_name = Join env (bp (lhm w)) (fname @ ''.log''), fw_f = Some fd\<rparr>]\<rparr>;
              nl = length (loggers w1);
              w2 = w1\<lparr>loggers := loggers w1 @ [logrus_New]\<rparr>;
              w3 = upd_logger nl (\<lambda>lg. lg\<lparr>Out := FileOut fh\<rparr>) w2;
              w4 = upd_logger nl
                     (\<lambda>lg. lg\<lparr>Formatter := \<lparr>DisableColors = True, FullTimestamp = True\<rparr>\<rparr>) w3;
              w5 = SetLevel nl lvl w4;
              w6 = Infoln nl (''Started logfile `'' @ fname @ ''` at '' @ now_started env) w5
          in (None, Add fname (Addr fh) (Addr nl) w6)))"

text \<open>The message of the rotation marker for an entry, as \<open>fileloop\<close> formats it.\<close>

definition marker :: "pass_env \<Rightarrow> string \<Rightarrow> string" where
  "marker env name = ''Reopened logfile `'' @ name @ ''` for logrotate at '' @ now_at env name"

text \<open>The events recorded between two states, the second reached from the first.\<close>

definition new_events :: "world \<Rightarrow> world \<Rightarrow> event list" where
  "new_events w w' = drop (length (trace w)) (trace w')"

fun is_AbortCall :: "event \<Rightarrow> bool" where
  "is_AbortCall (AbortCall e) = True"
| "is_AbortCall ev = False"

fun written_by :: "nat \<Rightarrow> event \<Rightarrow> bool" where
  "written_by la (Written a s l m) = (a = la)"
| "written_by la ev = False"

fun reopen_of :: "nat \<Rightarrow> event \<Rightarrow> bool" where
  "reopen_of fa (ReopenCall a r) = (a = fa)"
| "reopen_of fa ev = False"

text \<open>
  The invariant of the specification's data model (section 3): no two entries share a
  writer or a logger instance. \<open>unshared m ks\<close> says it of the map \<open>m\<close> on the names \<open>ks\<close>.
  \<^verbatim>\<open>Add\<close> does not enforce it.
\<close>

definition unshared :: "(string \<rightharpoonup> pointer) \<Rightarrow> string list \<Rightarrow> bool" where
  "unshared m ks \<longleftrightarrow>
     (\<forall>k\<in>set ks. \<forall>k'\<in>set ks. k \<noteq> k' \<longrightarrow> map_get m k \<noteq> nil \<longrightarrow> map_get m k \<noteq> map_get m k')"

text \<open>Concrete inputs: a process that has not used the package yet, and an \<^verbatim>\<open>Open\<close> that succeeds.\<close>

definition world0 :: world where
  "world0 =
     \<lparr>lhm = \<lparr>hmap = Map.empty, lmap = Map.empty, bp = [], signal = None, configured = False\<rparr>,
      writers = [], loggers = [], chans = 0, trace = []\<rparr>"

definition env0 :: open_env where
  "env0 = \<lparr>Join = (\<lambda>d f. d @ ''/'' @ f), now_rename = ''2020-01-01T00:00:00Z'',
           NewFileWriter_answer = Inr 3, now_started = ''2020-01-01T00:00:01Z''\<rparr>"

text \<open>
  What a pass leaves behind for an entry that it visited and reopened (from state \<open>w\<close> to
  state \<open>w'\<close>): the entry's writer holds the descriptor the reopen returned, the call is in
  the trace, and so is the marker, written at info level by the entry's logger.
\<close>

definition reopened_and_marked :: "pass_env \<Rightarrow> world \<Rightarrow> world \<Rightarrow> string \<Rightarrow> bool" where
  "reopened_and_marked env w w' k \<longleftrightarrow>
     (case (GetFileHandle k w, Reopen_answer env k, deref (loggers w) (GetLogger k w)) of
        (Addr fa, Inr fd, Some (la, lg)) \<Rightarrow>
          fa < length (writers w) \<and> fw_f (writers w' ! fa) = Some fd \<and>
          ReopenCall fa (Inr fd) \<in> set (new_events w w') \<and>
          Written la (Out lg) InfoLevel (marker env k) \<in> set (new_events w w')
      | _ \<Rightarrow> False)"

text \<open>
  The part of this that is about what the pass did, not about the state it left: the
  reopen of the entry's writer was called and answered with a descriptor, and the marker
  was written at info level by the entry's logger.
\<close>

definition visited_and_marked :: "pass_env \<Rightarrow> world \<Rightarrow> world \<Rightarrow> string \<Rightarrow> bool" where
  "visited_and_marked env w w' k \<longleftrightarrow>
     (case (GetFileHandle k w, Reopen_answer env k, deref (loggers w) (GetLogger k w)) of
        (Addr fa, Inr fd, Some (la, lg)) \<Rightarrow>
          fa < length (writers w) \<and>
          ReopenCall fa (Inr fd) \<in> set (new_events w w') \<and>
          Written la (Out lg) InfoLevel (marker env k) \<in> set (new_events w w')
      | _ \<Rightarrow> False)"

text \<open>
  What a pass leaves behind for an entry that it did not touch: the same pointers, the
  writer object as it was, no reopen of that writer and no record written by that logger.
\<close>

definition untouched :: "world \<Rightarrow> world \<Rightarrow> string \<Rightarrow> bool" where
  "untouched w w' k \<longleftrightarrow>
     GetFileHandle k w' = GetFileHandle k w \<and> GetLogger k w' = GetLogger k w \<and>
     (case GetFileHandle k w of
        nil \<Rightarrow> True
      | Addr fa \<Rightarrow> writers w' ! fa = writers w ! fa \<and> filter (reopen_of fa) (new_events w w') = []) \<and>
     (case GetLogger k w of
        nil \<Rightarrow> True
      | Addr la \<Rightarrow> filter (written_by la) (new_events w w') = [])"

text \<open>
  A registry with three streams opened one after the other, one pass in which the reopen of
  \<open>db\<close> fails, and one in which every reopen succeeds.
\<close>

definition world3 :: world where
  "world3 =
     snd (Open env0 ''web'' DebugLevel
       (snd (Open env0 ''db'' ErrorLevel
         (snd (Open env0 ''app'' WarnLevel (snd (New ''/var/log'' world0)))))))"

definition penv_fail :: pass_env where
  "penv_fail =
     \<lparr>order = [''app'', ''db'', ''web''],
      Reopen_answer = (\<lambda>k. if k = ''db'' then Inl ''permission denied'' else Inr 9),
      now_at = (\<lambda>k. ''2020-01-02T00:00:00Z'')\<rparr>"

definition penv_ok :: pass_env where
  "penv_ok =
     \<lparr>order = [''web'', ''app'', ''db''],
      Reopen_answer = (\<lambda>k. Inr 9),
      now_at = (\<lambda>k. ''2020-01-02T00:00:00Z'')\<rparr>"

text \<open>
  A registry in which two names hold the same writer and the same logger: \<open>app\<close> is
  opened, then \<^verbatim>\<open>Add\<close> registers \<open>alias\<close> with the two pointers of \<open>app\<close>. One pass in which
  every reopen fails, and one in which every reopen succeeds.
\<close>

definition world_shared :: world where
  "world_shared =
     Add ''alias'' (Addr 0) (Addr 0)
       (snd (Open env0 ''app'' WarnLevel (snd (New ''/var/log'' world0))))"

definition penv_shared_fail :: pass_env where
  "penv_shared_fail =
     \<lparr>order = [''app'', ''alias''],
      Reopen_answer = (\<lambda>k. Inl ''permission denied''),
      now_at = (\<lambda>k. ''2020-01-02T00:00:00Z'')\<rparr>"

definition penv_shared_ok :: pass_env where
  "penv_shared_ok =
     \<lparr>order = [''app'', ''alias''],
      Reopen_answer = (\<lambda>k. Inr 9),
      now_at = (\<lambda>k. ''2020-01-02T00:00:00Z'')\<rparr>"

section \<open>Basic facts\<close>

lemmas level_defs = PanicLevel_def FatalLevel_def ErrorLevel_def WarnLevel_def InfoLevel_def
  DebugLevel_def TraceLevel_def

lemmas logger_defs = Logger_Log_def Infoln_def Logger_Printf_def SetLevel_def upd_logger_def
  emit_def IsLevelEnabled_def Logger_Exit_def Logger_Fatal_def logrus_New_def

lemma deref_SomeD:
  "deref h p = Some (a, x) \<Longrightarrow> p = Addr a \<and> a < length h \<and> h ! a = x"
  by (auto simp: deref_def split: pointer.splits if_splits)

lemma reopened_and_marked_iff:
  "reopened_and_marked env w w' k \<longleftrightarrow>
     (\<exists>fa fd la lg.
        map_get (hmap (lhm w)) k = Addr fa \<and> fa < length (writers w) \<and>
        Reopen_answer env k = Inr fd \<and> fw_f (writers w' ! fa) = Some fd \<and>
        deref (loggers w) (map_get (lmap (lhm w)) k) = Some (la, lg) \<and>
        ReopenCall fa (Inr fd) \<in> set (new_events w w') \<and>
        Written la (Out lg) InfoLevel (marker env k) \<in> set (new_events w w'))"
  by (auto simp: reopened_and_marked_def GetFileHandle_def GetLogger_def
      split: pointer.splits sum.splits option.splits)

lemma visited_and_marked_iff:
  "visited_and_marked env w w' k \<longleftrightarrow>
     (\<exists>fa fd la lg.
        map_get (hmap (lhm w)) k = Addr fa \<and> fa < length (writers w) \<and>
        Reopen_answer env k = Inr fd \<and>
        deref (loggers w) (map_get (lmap (lhm w)) k) = Some (la, lg) \<and>
        ReopenCall fa (Inr fd) \<in> set (new_events w w') \<and>
        Written la (Out lg) InfoLevel (marker env k) \<in> set (new_events w w'))"
  by (auto simp: visited_and_marked_def GetFileHandle_def GetLogger_def
      split: pointer.splits sum.splits option.splits)

lemma untouched_iff:
  "untouched w w' k \<longleftrightarrow>
     GetFileHandle k w' = GetFileHandle k w \<and> GetLogger k w' = GetLogger k w \<and>
     (\<forall>fa. GetFileHandle k w = Addr fa \<longrightarrow>
        writers w' ! fa = writers w ! fa \<and> filter (reopen_of fa) (new_events w w') = []) \<and>
     (\<forall>la. GetLogger k w = Addr la \<longrightarrow> filter (written_by la) (new_events w w') = [])"
  by (auto simp: untouched_def split: pointer.splits)

lemma Init_eq:
  "Init t w =
     w\<lparr>lhm := \<lparr>hmap = Map.empty, lmap = Map.empty(''__early'' \<mapsto> Addr (length (loggers w))),
                 bp = [], signal = None, configured = False\<rparr>,
       loggers := loggers w @
          [\<lparr>Out = reopen_Stderr, Formatter = \<lparr>DisableColors = True, FullTimestamp = True\<rparr>,
            Level = DebugLevel, ExitFunc = func_empty\<rparr>],
       trace := trace w @
          [Written (length (loggers w)) reopen_Stderr InfoLevel (''Started early logging at '' @ t)]\<rparr>"
  by (simp add: Init_def Let_def logger_defs)

lemma New_eq:
  "New p w =
     (chans w,
      w\<lparr>lhm := \<lparr>hmap = Map.empty, lmap = Map.empty, bp = p, signal = Some (chans w),
                  configured = True\<rparr>,
        chans := Suc (chans w), trace := trace w @ [Notify (chans w)]\<rparr>)"
  by (simp add: New_def make_chan_def emit_def)

lemma Open_ok_eq:
  "NewFileWriter_answer env = Inr fd \<Longrightarrow>
   Open env fname lvl w =
     (None,
      w\<lparr>lhm := (lhm w)\<lparr>hmap := (hmap (lhm w))(fname \<mapsto> Addr (length (writers w))),
                        lmap := (lmap (lhm w))(fname \<mapsto> Addr (length (loggers w)))\<rparr>,
        writers := writers w @
           [\<lparr>fw_name = Join env (bp (lhm w)) (fname @ ''.log''), fw_f = Some fd\<rparr>],
        loggers := loggers w @
           [\<lparr>Out = FileOut (length (writers w)),
             Formatter = \<lparr>DisableColors = True, FullTimestamp = True\<rparr>,
             Level = lvl, ExitFunc = os_Exit\<rparr>],
        trace := trace w @
           [Rename (Join env (bp (lhm w)) (fname @ ''.log''))
                   (Join env (bp (lhm w)) (fname @ ''.log.'' @ now_rename env)),
            Written (length (loggers w)) (FileOut (length (writers w))) InfoLevel
                    (''Started logfile `'' @ fname @ ''` at '' @ now_started env)]\<rparr>)"
  by (simp add: Open_def Let_def logger_defs Add_def)

lemma Open_None_D:
  "Open env fname lvl w = (None, w') \<Longrightarrow> \<exists>fd. NewFileWriter_answer env = Inr fd"
  by (cases "NewFileWriter_answer env") (simp_all add: Open_def Let_def)

lemma Setup_Return_configured:
  "Setup p w = (Return c, w') \<Longrightarrow> configured (lhm w')"
  by (auto simp: Setup_def Let_def Logger_Exit_def make_chan_def emit_def
      split: if_splits option.splits prod.splits result.splits ExitFn.splits)

lemma New_configured: "configured (lhm (snd (New p w)))"
  by (simp add: New_eq)

lemma HasPrefix_Nil: "HasPrefix s []"
  by (simp add: HasPrefix_def)

lemma fileloop_skip_all: "fileloop [] env ns w = (Completed, w)"
  by (induction ns) (simp_all add: HasPrefix_Nil)

subsection \<open>One visit, and the loop as a sequence of visits\<close>

lemma fileloop_Cons:
  "fileloop pfx env (name # rest) w =
     (case fileloop pfx env [name] w of
        (Completed, w1) \<Rightarrow> fileloop pfx env rest w1
      | (Aborted e, w1) \<Rightarrow> (Aborted e, w1)
      | (Panicked, w1) \<Rightarrow> (Panicked, w1))"
  by (simp add: Let_def split: option.splits prod.splits)

lemma visit_skip:
  "HasPrefix name pfx \<Longrightarrow> fileloop pfx env [name] w = (Completed, w)"
  by simp

lemma visit_nil_writer:
  "\<not> HasPrefix name pfx \<Longrightarrow> deref (writers w) (map_get (hmap (lhm w)) name) = None \<Longrightarrow>
   fileloop pfx env [name] w = (Panicked, w)"
  by simp

lemma visit_fail:
  "\<not> HasPrefix name pfx \<Longrightarrow> deref (writers w) (map_get (hmap (lhm w)) name) = Some (fa, fw) \<Longrightarrow>
   Reopen_answer env name = Inl e \<Longrightarrow>
   fileloop pfx env [name] w =
     (Aborted e, w\<lparr>writers := (writers w)[fa := fw\<lparr>fw_f := None\<rparr>],
                   trace := trace w @ [ReopenCall fa (Inl e), AbortCall e]\<rparr>)"
  by (simp add: FileWriter_Reopen_def emit_def)

lemma visit_nil_logger:
  "\<not> HasPrefix name pfx \<Longrightarrow> deref (writers w) (map_get (hmap (lhm w)) name) = Some (fa, fw) \<Longrightarrow>
   Reopen_answer env name = Inr fd \<Longrightarrow>
   deref (loggers w) (map_get (lmap (lhm w)) name) = None \<Longrightarrow>
   fileloop pfx env [name] w =
     (Panicked, w\<lparr>writers := (writers w)[fa := fw\<lparr>fw_f := Some fd\<rparr>],
                  trace := trace w @ [ReopenCall fa (Inr fd)]\<rparr>)"
  by (simp add: FileWriter_Reopen_def emit_def getLoggerNolock_def Let_def)

lemma visit_ok:
  "\<not> HasPrefix name pfx \<Longrightarrow> deref (writers w) (map_get (hmap (lhm w)) name) = Some (fa, fw) \<Longrightarrow>
   Reopen_answer env name = Inr fd \<Longrightarrow>
   deref (loggers w) (map_get (lmap (lhm w)) name) = Some (la, lg) \<Longrightarrow>
   fileloop pfx env [name] w =
     (Completed, w\<lparr>writers := (writers w)[fa := fw\<lparr>fw_f := Some fd\<rparr>],
                   trace := trace w @ [ReopenCall fa (Inr fd),
                                       Written la (Out lg) InfoLevel (marker env name)]\<rparr>)"
  by (auto simp: FileWriter_Reopen_def getLoggerNolock_def Let_def logger_defs marker_def
      dest!: deref_SomeD)


lemma visit_cases [case_names skip nil_writer fail nil_logger ok]:
  obtains
    (skip) "HasPrefix k pfx" "fileloop pfx env [k] w = (Completed, w)"
  | (nil_writer) "\<not> HasPrefix k pfx" "deref (writers w) (map_get (hmap (lhm w)) k) = None"
      "fileloop pfx env [k] w = (Panicked, w)"
  | (fail) fa fw e where "\<not> HasPrefix k pfx"
      "deref (writers w) (map_get (hmap (lhm w)) k) = Some (fa, fw)"
      "Reopen_answer env k = Inl e"
      "fileloop pfx env [k] w =
         (Aborted e, w\<lparr>writers := (writers w)[fa := fw\<lparr>fw_f := None\<rparr>],
                       trace := trace w @ [ReopenCall fa (Inl e), AbortCall e]\<rparr>)"
  | (nil_logger) fa fw fd where "\<not> HasPrefix k pfx"
      "deref (writers w) (map_get (hmap (lhm w)) k) = Some (fa, fw)"
      "Reopen_answer env k = Inr fd"
      "deref (loggers w) (map_get (lmap (lhm w)) k) = None"
      "fileloop pfx env [k] w =
         (Panicked, w\<lparr>writers := (writers w)[fa := fw\<lparr>fw_f := Some fd\<rparr>],
                      trace := trace w @ [ReopenCall fa (Inr fd)]\<rparr>)"
  | (ok) fa fw fd la lg where "\<not> HasPrefix k pfx"
      "deref (writers w) (map_get (hmap (lhm w)) k) = Some (fa, fw)"
      "Reopen_answer env k = Inr fd"
      "deref (loggers w) (map_get (lmap (lhm w)) k) = Some (la, lg)"
      "fileloop pfx env [k] w =
         (Completed, w\<lparr>writers := (writers w)[fa := fw\<lparr>fw_f := Some fd\<rparr>],
                       trace := trace w @ [ReopenCall fa (Inr fd),
                                           Written la (Out lg) InfoLevel (marker env k)]\<rparr>)"
proof (cases "HasPrefix k pfx")
  case True
  then show ?thesis using skip visit_skip by blast
next
  case np: False
  show ?thesis
  proof (cases "deref (writers w) (map_get (hmap (lhm w)) k)")
    case None
    with np show ?thesis using nil_writer visit_nil_writer by blast
  next
    case (Some p)
    then obtain fa fw where d: "deref (writers w) (map_get (hmap (lhm w)) k) = Some (fa, fw)"
      by (cases p) simp
    show ?thesis
    proof (cases "Reopen_answer env k")
      case (Inl e)
      from fail [OF np d Inl visit_fail [OF np d Inl]] show ?thesis .
    next
      case (Inr fd)
      show ?thesis
      proof (cases "deref (loggers w) (map_get (lmap (lhm w)) k)")
        case None
        from nil_logger [OF np d Inr None visit_nil_logger [OF np d Inr None]] show ?thesis .
      next
        case (Some q)
        then obtain la lg where l: "deref (loggers w) (map_get (lmap (lhm w)) k) = Some (la, lg)"
          by (cases q) simp
        from ok [OF np d Inr l visit_ok [OF np d Inr l]] show ?thesis .
      qed
    qed
  qed
qed


declare fileloop.simps(2) [simp del]

lemma fileloop_induct [consumes 1, case_names Nil Stop Go]:
  assumes run: "fileloop pfx env xs w = (out, w')"
    and base: "\<And>w. P [] w Completed w"
    and stop: "\<And>k xs w out w1. fileloop pfx env [k] w = (out, w1) \<Longrightarrow> out \<noteq> Completed \<Longrightarrow>
                 P (k # xs) w out w1"
    and go: "\<And>k xs w w1 out w'. fileloop pfx env [k] w = (Completed, w1) \<Longrightarrow>
                 fileloop pfx env xs w1 = (out, w') \<Longrightarrow> P xs w1 out w' \<Longrightarrow> P (k # xs) w out w'"
  shows "P xs w out w'"
  using run
proof (induction xs arbitrary: w)
  case Nil
  then show ?case using base by simp
next
  case (Cons k xs)
  obtain o1 w1 where v: "fileloop pfx env [k] w = (o1, w1)"
    by (cases "fileloop pfx env [k] w") auto
  show ?case
  proof (cases "o1 = Completed")
    case True
    with Cons.prems v have r: "fileloop pfx env xs w1 = (out, w')"
      by (simp add: fileloop_Cons [of pfx env k xs w])
    from v True have "fileloop pfx env [k] w = (Completed, w1)" by simp
    from go [OF this r Cons.IH [OF r]] show ?thesis .
  next
    case False
    with Cons.prems v have "out = o1 \<and> w' = w1"
      by (cases o1) (simp_all add: fileloop_Cons [of pfx env k xs w])
    with stop [OF v False] show ?thesis by simp
  qed
qed

lemma visit_summary:
  assumes "fileloop pfx env [k] w = (out, w1)"
  shows "lhm w1 = lhm w \<and> loggers w1 = loggers w \<and> length (writers w1) = length (writers w) \<and>
         chans w1 = chans w \<and>
         trace w1 = trace w @ new_events w w1 \<and>
         (out = Completed \<longrightarrow> filter is_AbortCall (new_events w w1) = []) \<and>
         (HasPrefix k pfx \<or> map_get (lmap (lhm w)) k \<noteq> Addr la \<longrightarrow>
            filter (written_by la) (new_events w w1) = []) \<and>
         (HasPrefix k pfx \<or> map_get (hmap (lhm w)) k \<noteq> Addr fa \<longrightarrow>
            filter (reopen_of fa) (new_events w w1) = [] \<and> writers w1 ! fa = writers w ! fa)"
  by (rule visit_cases [where k = k and pfx = pfx and w = w and env = env])
     (use assms in \<open>auto simp: new_events_def dest!: deref_SomeD\<close>)

lemma new_events_trans:
  "trace w1 = trace w @ new_events w w1 \<Longrightarrow> trace w2 = trace w1 @ new_events w1 w2 \<Longrightarrow>
   trace w2 = trace w @ new_events w w2 \<and> new_events w w2 = new_events w w1 @ new_events w1 w2"
  by (metis append.assoc append_eq_conv_conj new_events_def)

lemma fileloop_summary:
  assumes "fileloop pfx env xs w = (out, w')"
  shows "lhm w' = lhm w \<and> loggers w' = loggers w \<and> length (writers w') = length (writers w) \<and>
         chans w' = chans w \<and>
         trace w' = trace w @ new_events w w' \<and>
         (out = Completed \<longrightarrow> filter is_AbortCall (new_events w w') = []) \<and>
         ((\<forall>k\<in>set xs. HasPrefix k pfx \<or> map_get (lmap (lhm w)) k \<noteq> Addr la) \<longrightarrow>
            filter (written_by la) (new_events w w') = []) \<and>
         ((\<forall>k\<in>set xs. HasPrefix k pfx \<or> map_get (hmap (lhm w)) k \<noteq> Addr fa) \<longrightarrow>
            filter (reopen_of fa) (new_events w w') = [] \<and> writers w' ! fa = writers w ! fa)"
  using assms
proof (induction rule: fileloop_induct)
  case (Nil w)
  then show ?case by (simp add: new_events_def)
next
  case (Stop k xs w out w1)
  from visit_summary [OF Stop(1), of la fa] Stop(2) show ?case by auto
next
  case (Go k xs w w1 out w')
  note v = visit_summary [OF Go(1), of la fa]
  from v have f1: "lhm w1 = lhm w" "loggers w1 = loggers w"
      "length (writers w1) = length (writers w)" "chans w1 = chans w"
    and t1: "trace w1 = trace w @ new_events w w1"
    and a1: "filter is_AbortCall (new_events w w1) = []"
    and l1: "HasPrefix k pfx \<or> map_get (lmap (lhm w)) k \<noteq> Addr la \<Longrightarrow>
             filter (written_by la) (new_events w w1) = []"
    and r1: "HasPrefix k pfx \<or> map_get (hmap (lhm w)) k \<noteq> Addr fa \<Longrightarrow>
             filter (reopen_of fa) (new_events w w1) = [] \<and> writers w1 ! fa = writers w ! fa"
    by blast+
  from Go(3) have f2: "lhm w' = lhm w1" "loggers w' = loggers w1"
      "length (writers w') = length (writers w1)" "chans w' = chans w1"
    and t2: "trace w' = trace w1 @ new_events w1 w'"
    and a2: "out = Completed \<Longrightarrow> filter is_AbortCall (new_events w1 w') = []"
    and l2: "\<forall>k\<in>set xs. HasPrefix k pfx \<or> map_get (lmap (lhm w1)) k \<noteq> Addr la \<Longrightarrow>
             filter (written_by la) (new_events w1 w') = []"
    and r2: "\<forall>k\<in>set xs. HasPrefix k pfx \<or> map_get (hmap (lhm w1)) k \<noteq> Addr fa \<Longrightarrow>
             filter (reopen_of fa) (new_events w1 w') = [] \<and> writers w' ! fa = writers w1 ! fa"
    by blast+
  from new_events_trans [OF t1 t2]
  have t: "trace w' = trace w @ new_events w w'"
    and n: "new_events w w' = new_events w w1 @ new_events w1 w'"
    by blast+
  have c1: "lhm w' = lhm w \<and> loggers w' = loggers w \<and> length (writers w') = length (writers w) \<and>
         chans w' = chans w"
    using f1 f2 by simp
  have c2: "out = Completed \<longrightarrow> filter is_AbortCall (new_events w w') = []"
    using a1 a2 n by simp
  have c3: "(\<forall>k\<in>set (k # xs). HasPrefix k pfx \<or> map_get (lmap (lhm w)) k \<noteq> Addr la) \<longrightarrow>
            filter (written_by la) (new_events w w') = []"
    using l1 l2 n f1(1) by simp
  have c4: "(\<forall>k\<in>set (k # xs). HasPrefix k pfx \<or> map_get (hmap (lhm w)) k \<noteq> Addr fa) \<longrightarrow>
            filter (reopen_of fa) (new_events w w') = [] \<and> writers w' ! fa = writers w ! fa"
    using r1 r2 n f1(1) by simp
  from c1 t c2 c3 c4 show ?case by blast
qed


lemma fileloop_append_Completed:
  assumes "fileloop pfx env xs w = (out, w1)"
  shows "out = Completed \<longrightarrow> fileloop pfx env (xs @ ys) w = fileloop pfx env ys w1"
  using assms
proof (induction rule: fileloop_induct)
  case (Nil w)
  then show ?case by simp
next
  case (Stop k xs w out w1)
  then show ?case by simp
next
  case (Go k xs w w1 out w')
  then show ?case by (simp add: fileloop_Cons [of pfx env k "xs @ ys" w])
qed

lemma visit_Completed:
  assumes "fileloop pfx env [k] w = (Completed, w1)" and "\<not> HasPrefix k pfx"
  shows "\<exists>fa fd la lg.
           map_get (hmap (lhm w)) k = Addr fa \<and> fa < length (writers w) \<and>
           Reopen_answer env k = Inr fd \<and> fw_f (writers w1 ! fa) = Some fd \<and>
           deref (loggers w) (map_get (lmap (lhm w)) k) = Some (la, lg) \<and>
           new_events w w1 = [ReopenCall fa (Inr fd), Written la (Out lg) InfoLevel (marker env k)]"
  by (rule visit_cases [where k = k and pfx = pfx and w = w and env = env])
     (use assms in \<open>auto simp: new_events_def dest!: deref_SomeD\<close>)

lemma unshared_Cons:
  "unshared m (k # xs) \<Longrightarrow> unshared m xs"
  by (simp add: unshared_def)

lemma unshared_other:
  "unshared m ks \<Longrightarrow> k \<in> set ks \<Longrightarrow> k' \<in> set ks \<Longrightarrow> k \<noteq> k' \<Longrightarrow> map_get m k = Addr a \<Longrightarrow>
   map_get m k' \<noteq> Addr a"
  unfolding unshared_def by (metis pointer.distinct(1))

lemma fileloop_Completed:
  assumes "fileloop pfx env xs w = (out, w')"
  shows "out = Completed \<longrightarrow> distinct xs \<longrightarrow> unshared (hmap (lhm w)) xs \<longrightarrow>
         (\<forall>n\<in>set xs. \<not> HasPrefix n pfx \<longrightarrow> reopened_and_marked env w w' n)"
  using assms
proof (induction rule: fileloop_induct)
  case (Nil w)
  then show ?case by simp
next
  case (Stop k xs w out w1)
  then show ?case by simp
next
  case (Go k xs w w1 out w')
  show ?case
  proof (intro impI ballI)
    fix n
    assume out: "out = Completed" and dist: "distinct (k # xs)"
      and un: "unshared (hmap (lhm w)) (k # xs)"
      and n: "n \<in> set (k # xs)" and np: "\<not> HasPrefix n pfx"
    note v = visit_summary [OF Go(1)]
    from v have f1: "lhm w1 = lhm w" "loggers w1 = loggers w"
        "length (writers w1) = length (writers w)"
      and t1: "trace w1 = trace w @ new_events w w1"
      by blast+
    note s = fileloop_summary [OF Go(2)]
    from s have t2: "trace w' = trace w1 @ new_events w1 w'" by blast
    from new_events_trans [OF t1 t2]
    have ne: "new_events w w' = new_events w w1 @ new_events w1 w'" by blast
    show "reopened_and_marked env w w' n"
    proof (cases "n = k")
      case True
      from visit_Completed [OF Go(1)] np True
      obtain fa fd la lg where
        h: "map_get (hmap (lhm w)) k = Addr fa" "fa < length (writers w)"
          "Reopen_answer env k = Inr fd" "fw_f (writers w1 ! fa) = Some fd"
          "deref (loggers w) (map_get (lmap (lhm w)) k) = Some (la, lg)"
          "new_events w w1 = [ReopenCall fa (Inr fd), Written la (Out lg) InfoLevel (marker env k)]"
        by blast
      have "\<forall>k'\<in>set xs. HasPrefix k' pfx \<or> map_get (hmap (lhm w1)) k' \<noteq> Addr fa"
      proof
        fix k' assume k': "k' \<in> set xs"
        with dist have "k \<noteq> k'" by auto
        from unshared_other [OF un _ _ this h(1)] k'
        show "HasPrefix k' pfx \<or> map_get (hmap (lhm w1)) k' \<noteq> Addr fa"
          by (simp add: f1)
      qed
      with s [of _ fa] have "writers w' ! fa = writers w1 ! fa" by blast
      with h ne True show ?thesis
        unfolding reopened_and_marked_iff by auto
    next
      case False
      with n dist un have "n \<in> set xs" "distinct xs" "unshared (hmap (lhm w1)) xs"
        by (auto simp: f1 dest: unshared_Cons)
      with Go(3) out np have "reopened_and_marked env w1 w' n" by blast
      then show ?thesis
        unfolding reopened_and_marked_iff using f1 ne by auto
    qed
  qed
qed


lemma fileloop_Completed_events:
  assumes "fileloop pfx env xs w = (out, w')"
  shows "out = Completed \<longrightarrow> (\<forall>n\<in>set xs. \<not> HasPrefix n pfx \<longrightarrow> visited_and_marked env w w' n)"
  using assms
proof (induction rule: fileloop_induct)
  case (Nil w)
  then show ?case by simp
next
  case (Stop k xs w out w1)
  then show ?case by simp
next
  case (Go k xs w w1 out w')
  show ?case
  proof (intro impI ballI)
    fix n
    assume out: "out = Completed" and n: "n \<in> set (k # xs)" and np: "\<not> HasPrefix n pfx"
    note v = visit_summary [OF Go(1)]
    from v have f1: "lhm w1 = lhm w" "loggers w1 = loggers w"
        "length (writers w1) = length (writers w)"
      and t1: "trace w1 = trace w @ new_events w w1"
      by blast+
    from fileloop_summary [OF Go(2)] have t2: "trace w' = trace w1 @ new_events w1 w'" by blast
    from new_events_trans [OF t1 t2]
    have ne: "new_events w w' = new_events w w1 @ new_events w1 w'" by blast
    show "visited_and_marked env w w' n"
    proof (cases "n = k")
      case True
      from visit_Completed [OF Go(1)] np True
      obtain fa fd la lg where
        h: "map_get (hmap (lhm w)) k = Addr fa" "fa < length (writers w)"
          "Reopen_answer env k = Inr fd"
          "deref (loggers w) (map_get (lmap (lhm w)) k) = Some (la, lg)"
          "new_events w w1 = [ReopenCall fa (Inr fd), Written la (Out lg) InfoLevel (marker env k)]"
        by blast
      with ne True show ?thesis
        unfolding visited_and_marked_iff by auto
    next
      case False
      with n have "n \<in> set xs" by simp
      with Go(3) out np have "visited_and_marked env w1 w' n" by blast
      then show ?thesis
        unfolding visited_and_marked_iff using f1 ne by auto
    qed
  qed
qed

lemma visit_written_by:
  assumes "fileloop pfx env [k] w = (Completed, w1)"
  shows "filter (written_by la) (new_events w w1) =
           (if \<not> HasPrefix k pfx \<and> map_get (lmap (lhm w)) k = Addr la
            then [Written la (Out (loggers w ! la)) InfoLevel (marker env k)] else [])"
  by (rule visit_cases [where k = k and pfx = pfx and w = w and env = env])
     (use assms in \<open>auto simp: new_events_def dest!: deref_SomeD\<close>)

lemma fileloop_written_by:
  assumes "fileloop pfx env xs w = (out, w')"
  shows "out = Completed \<longrightarrow>
         filter (written_by la) (new_events w w') =
           map (\<lambda>k. Written la (Out (loggers w ! la)) InfoLevel (marker env k))
             (filter (\<lambda>k. \<not> HasPrefix k pfx \<and> map_get (lmap (lhm w)) k = Addr la) xs)"
  using assms
proof (induction rule: fileloop_induct)
  case (Nil w)
  then show ?case by (simp add: new_events_def)
next
  case (Stop k xs w out w1)
  then show ?case by simp
next
  case (Go k xs w w1 out w')
  note v = visit_summary [OF Go(1)]
  from v have f1: "lhm w1 = lhm w" "loggers w1 = loggers w"
    and t1: "trace w1 = trace w @ new_events w w1"
    by blast+
  from fileloop_summary [OF Go(2)] have t2: "trace w' = trace w1 @ new_events w1 w'" by blast
  from new_events_trans [OF t1 t2]
  have ne: "new_events w w' = new_events w w1 @ new_events w1 w'" by blast
  show ?case
  proof
    assume "out = Completed"
    with Go(3) have "filter (written_by la) (new_events w1 w') =
           map (\<lambda>k. Written la (Out (loggers w ! la)) InfoLevel (marker env k))
             (filter (\<lambda>k. \<not> HasPrefix k pfx \<and> map_get (lmap (lhm w)) k = Addr la) xs)"
      by (simp add: f1)
    with visit_written_by [OF Go(1), of la] ne
    show "filter (written_by la) (new_events w w') =
           map (\<lambda>k. Written la (Out (loggers w ! la)) InfoLevel (marker env k))
             (filter (\<lambda>k. \<not> HasPrefix k pfx \<and> map_get (lmap (lhm w)) k = Addr la) (k # xs))"
      by simp
  qed
qed

lemma unshared_subset:
  "unshared m ks \<Longrightarrow> set ks' \<subseteq> set ks \<Longrightarrow> unshared m ks'"
  unfolding unshared_def by blast

subsection \<open>The concrete registry\<close>

lemma world3_eq:
  "world3 =
     \<lparr>lhm = \<lparr>hmap = [''app'' \<mapsto> Addr 0, ''db'' \<mapsto> Addr 1, ''web'' \<mapsto> Addr 2],
              lmap = [''app'' \<mapsto> Addr 0, ''db'' \<mapsto> Addr 1, ''web'' \<mapsto> Addr 2],
              bp = ''/var/log'', signal = Some 0, configured = True\<rparr>,
      writers = [\<lparr>fw_name = ''/var/log/app.log'', fw_f = Some 3\<rparr>,
                 \<lparr>fw_name = ''/var/log/db.log'', fw_f = Some 3\<rparr>,
                 \<lparr>fw_name = ''/var/log/web.log'', fw_f = Some 3\<rparr>],
      loggers = [\<lparr>Out = FileOut 0, Formatter = \<lparr>DisableColors = True, FullTimestamp = True\<rparr>,
                  Level = WarnLevel, ExitFunc = os_Exit\<rparr>,
                 \<lparr>Out = FileOut 1, Formatter = \<lparr>DisableColors = True, FullTimestamp = True\<rparr>,
                  Level = ErrorLevel, ExitFunc = os_Exit\<rparr>,
                 \<lparr>Out = FileOut 2, Formatter = \<lparr>DisableColors = True, FullTimestamp = True\<rparr>,
                  Level = DebugLevel, ExitFunc = os_Exit\<rparr>],
      chans = 1,
      trace = [Notify 0,
               Rename ''/var/log/app.log'' ''/var/log/app.log.2020-01-01T00:00:00Z'',
               Written 0 (FileOut 0) InfoLevel ''Started logfile `app` at 2020-01-01T00:00:01Z'',
               Rename ''/var/log/db.log'' ''/var/log/db.log.2020-01-01T00:00:00Z'',
               Written 1 (FileOut 1) InfoLevel ''Started logfile `db` at 2020-01-01T00:00:01Z'',
               Rename ''/var/log/web.log'' ''/var/log/web.log.2020-01-01T00:00:00Z'',
               Written 2 (FileOut 2) InfoLevel ''Started logfile `web` at 2020-01-01T00:00:01Z'']\<rparr>"
proof -
  have fd: "NewFileWriter_answer env0 = Inr 3"
    by (simp add: env0_def)
  show ?thesis
    unfolding world3_def Open_ok_eq [OF fd]
    by (simp add: New_eq world0_def env0_def numeral_2_eq_2)
qed

lemma world_shared_eq:
  "world_shared =
     \<lparr>lhm = \<lparr>hmap = [''app'' \<mapsto> Addr 0, ''alias'' \<mapsto> Addr 0],
              lmap = [''app'' \<mapsto> Addr 0, ''alias'' \<mapsto> Addr 0],
              bp = ''/var/log'', signal = Some 0, configured = True\<rparr>,
      writers = [\<lparr>fw_name = ''/var/log/app.log'', fw_f = Some 3\<rparr>],
      loggers = [\<lparr>Out = FileOut 0, Formatter = \<lparr>DisableColors = True, FullTimestamp = True\<rparr>,
                  Level = WarnLevel, ExitFunc = os_Exit\<rparr>],
      chans = 1,
      trace = [Notify 0,
               Rename ''/var/log/app.log'' ''/var/log/app.log.2020-01-01T00:00:00Z'',
               Written 0 (FileOut 0) InfoLevel ''Started logfile `app` at 2020-01-01T00:00:01Z'']\<rparr>"
proof -
  have fd: "NewFileWriter_answer env0 = Inr 3"
    by (simp add: env0_def)
  show ?thesis
    unfolding world_shared_def Open_ok_eq [OF fd]
    by (simp add: New_eq world0_def env0_def Add_def)
qed

lemmas eval_defs = map_get_def deref_def HasPrefix_def FileWriter_Reopen_def getLoggerNolock_def
  GetFileHandle_def GetLogger_def unshared_def


section \<open>Claims about construction, early logging and the registry\<close>

text \<open>
  C3. For every name \<open>n\<close> and level \<open>l\<close>: if \<open>Open n l\<close> returns without error, then
  \<open>GetFileHandle n\<close> and \<open>GetLogger n\<close> return non-nil pointers, namely the addresses of
  the writer and of the logger that this call allocated (the first free address of each
  store), and the level of that logger is \<open>l\<close>.
\<close>

theorem Open_registers:
  assumes "Open env n l w = (None, w')"
  shows "GetFileHandle n w' = Addr (length (writers w)) \<and>
         GetLogger n w' = Addr (length (loggers w)) \<and>
         GetFileHandle n w' \<noteq> nil \<and> GetLogger n w' \<noteq> nil \<and>
         (\<exists>fw. deref (writers w') (GetFileHandle n w') = Some (length (writers w), fw)) \<and>
         (\<exists>lg. deref (loggers w') (GetLogger n w') = Some (length (loggers w), lg) \<and>
               Level lg = l \<and> Out lg = FileOut (length (writers w)))"
proof -
  from assms obtain fd where fd: "NewFileWriter_answer env = Inr fd"
    by (auto dest: Open_None_D)
  from assms show ?thesis
    unfolding Open_ok_eq [OF fd]
    by (auto simp: GetFileHandle_def GetLogger_def map_get_def deref_def)
qed

theorem Open_registers_witness:
  "Open env0 ''app'' WarnLevel (snd (New ''/var/log'' world0)) =
     (None, snd (Open env0 ''app'' WarnLevel (snd (New ''/var/log'' world0)))) \<and>
   GetFileHandle ''app'' (snd (Open env0 ''app'' WarnLevel (snd (New ''/var/log'' world0)))) = Addr 0 \<and>
   GetLogger ''app'' (snd (Open env0 ''app'' WarnLevel (snd (New ''/var/log'' world0)))) = Addr 0 \<and>
   Level (loggers (snd (Open env0 ''app'' WarnLevel (snd (New ''/var/log'' world0)))) ! 0) = WarnLevel"
proof -
  have fd: "NewFileWriter_answer env0 = Inr 3"
    by (simp add: env0_def)
  have h: "Open env0 ''app'' WarnLevel (snd (New ''/var/log'' world0)) =
     (None, snd (Open env0 ''app'' WarnLevel (snd (New ''/var/log'' world0))))"
    by (simp add: Open_ok_eq [OF fd])
  from Open_registers [OF h] h show ?thesis
    by (auto simp: New_eq world0_def dest!: deref_SomeD)
qed

text \<open>
  C4. For every configured map and every base path \<open>p\<close>, also one different from the
  stored base path, \<open>Setup p\<close> returns the channel held by the \<open>signal\<close> field and changes
  nothing: the maps, the base path and the flag are those of before, as is all the
  rest of the state.
\<close>

theorem Setup_configured_noop:
  "configured (lhm w) \<Longrightarrow> Setup p w = (Return (signal (lhm w)), w)"
  by (simp add: Setup_def)

theorem Setup_configured_noop_witness:
  "configured (lhm (snd (New ''/var/log'' world0))) \<and>
   bp (lhm (snd (New ''/var/log'' world0))) \<noteq> ''/tmp'' \<and>
   fst (New ''/var/log'' world0) = 0 \<and>
   Setup ''/tmp'' (snd (New ''/var/log'' world0)) = (Return (Some 0), snd (New ''/var/log'' world0))"
  using Setup_configured_noop [of "snd (New ''/var/log'' world0)" "''/tmp''"]
  by (simp add: New_eq world0_def)

text \<open>
  C5. \<open>EarlyPrintf\<close> and \<open>EarlyFatal\<close> hand their message to the logger registered as
  \<open>__early\<close> exactly when the map is not configured. On a configured map both return
  with the state as it was, so nothing is written; this covers a map made by \<open>New\<close> and a
  map on which \<open>Setup\<close> has returned. On a map that is not configured and holds the
  sentinel, \<open>EarlyPrintf\<close> is that logger's \<^verbatim>\<open>Printf\<close> and \<open>EarlyFatal\<close> its \<^verbatim>\<open>Fatal\<close>; where
  the sentinel's level admits the record, the record is written if and only if the map is
  not configured.
\<close>

theorem Early_iff_unconfigured:
  "(configured (lhm w) \<longrightarrow> EarlyPrintf msg w = (Return (), w) \<and> EarlyFatal msg w = (Return (), w)) \<and>
   (deref (loggers w) (map_get (lmap (lhm w)) ''__early'') = Some (a, lg) \<longrightarrow>
      (\<not> configured (lhm w) \<longrightarrow>
         EarlyPrintf msg w = (Return (), Logger_Printf a msg w) \<and>
         EarlyFatal msg w = Logger_Fatal a msg w) \<and>
      (IsLevelEnabled lg InfoLevel \<longrightarrow>
         (trace (snd (EarlyPrintf msg w)) = trace w @ [Written a (Out lg) InfoLevel msg])
           = (\<not> configured (lhm w))) \<and>
      (IsLevelEnabled lg FatalLevel \<longrightarrow>
         (trace (snd (EarlyFatal msg w)) = trace w @ [Written a (Out lg) FatalLevel msg, ExitCall a 1])
           = (\<not> configured (lhm w)))) \<and>
   EarlyPrintf msg (snd (New p v)) = (Return (), snd (New p v)) \<and>
   EarlyFatal msg (snd (New p v)) = (Return (), snd (New p v)) \<and>
   (Setup p v = (Return c, v') \<longrightarrow>
      EarlyPrintf msg v' = (Return (), v') \<and> EarlyFatal msg v' = (Return (), v'))"
proof -
  have noop: "EarlyPrintf msg u = (Return (), u) \<and> EarlyFatal msg u = (Return (), u)"
    if "configured (lhm u)" for u
    using that by (simp add: EarlyPrintf_def EarlyFatal_def)
  have deliver: "(\<not> configured (lhm w) \<longrightarrow>
         EarlyPrintf msg w = (Return (), Logger_Printf a msg w) \<and>
         EarlyFatal msg w = Logger_Fatal a msg w) \<and>
      (IsLevelEnabled lg InfoLevel \<longrightarrow>
         (trace (snd (EarlyPrintf msg w)) = trace w @ [Written a (Out lg) InfoLevel msg])
           = (\<not> configured (lhm w))) \<and>
      (IsLevelEnabled lg FatalLevel \<longrightarrow>
         (trace (snd (EarlyFatal msg w)) = trace w @ [Written a (Out lg) FatalLevel msg, ExitCall a 1])
           = (\<not> configured (lhm w)))"
    if s: "deref (loggers w) (map_get (lmap (lhm w)) ''__early'') = Some (a, lg)"
  proof -
    from s have lg: "loggers w ! a = lg"
      by (auto simp: deref_def split: pointer.splits if_splits)
    show ?thesis
      using s lg
      by (cases "ExitFunc lg")
         (auto simp: EarlyPrintf_def EarlyFatal_def Logger_Printf_def Logger_Fatal_def
           Logger_Log_def Logger_Exit_def emit_def Let_def)
  qed
  from noop [of w] noop [of "snd (New p v)"] noop [of v'] deliver
    New_configured [of p v] Setup_Return_configured [of p v c v']
  show ?thesis by blast
qed

theorem Early_iff_unconfigured_witness:
  "\<not> configured (lhm (Init ''T0'' world0)) \<and>
   deref (loggers (Init ''T0'' world0)) (map_get (lmap (lhm (Init ''T0'' world0))) ''__early'') =
     Some (0, loggers (Init ''T0'' world0) ! 0) \<and>
   IsLevelEnabled (loggers (Init ''T0'' world0) ! 0) InfoLevel \<and>
   IsLevelEnabled (loggers (Init ''T0'' world0) ! 0) FatalLevel \<and>
   trace (snd (EarlyPrintf ''hello'' (Init ''T0'' world0))) =
     trace (Init ''T0'' world0) @ [Written 0 reopen_Stderr InfoLevel ''hello''] \<and>
   trace (snd (EarlyFatal ''hello'' (Init ''T0'' world0))) =
     trace (Init ''T0'' world0) @ [Written 0 reopen_Stderr FatalLevel ''hello'', ExitCall 0 1] \<and>
   Setup ''/var/log'' (Init ''T0'' world0) =
     (Return (Some 0), snd (Setup ''/var/log'' (Init ''T0'' world0))) \<and>
   configured (lhm (snd (Setup ''/var/log'' (Init ''T0'' world0)))) \<and>
   EarlyPrintf ''hello'' (snd (Setup ''/var/log'' (Init ''T0'' world0))) =
     (Return (), snd (Setup ''/var/log'' (Init ''T0'' world0))) \<and>
   EarlyFatal ''hello'' (snd (Setup ''/var/log'' (Init ''T0'' world0))) =
     (Return (), snd (Setup ''/var/log'' (Init ''T0'' world0)))"
proof -
  have s: "Setup ''/var/log'' (Init ''T0'' world0) =
     (Return (Some 0), snd (Setup ''/var/log'' (Init ''T0'' world0)))"
    by (simp add: Setup_def Init_eq world0_def map_get_def deref_def Logger_Exit_def
        make_chan_def emit_def Let_def)
  have d: "deref (loggers (Init ''T0'' world0)) (map_get (lmap (lhm (Init ''T0'' world0))) ''__early'') =
     Some (0, loggers (Init ''T0'' world0) ! 0)"
    by (simp add: Init_eq world0_def map_get_def deref_def)
  have e: "IsLevelEnabled (loggers (Init ''T0'' world0) ! 0) InfoLevel \<and>
     IsLevelEnabled (loggers (Init ''T0'' world0) ! 0) FatalLevel \<and>
     \<not> configured (lhm (Init ''T0'' world0)) \<and>
     Out (loggers (Init ''T0'' world0) ! 0) = reopen_Stderr"
    by (simp add: Init_eq world0_def IsLevelEnabled_def level_defs)
  from Early_iff_unconfigured [of "Init ''T0'' world0" "''hello''" 0 "loggers (Init ''T0'' world0) ! 0"
      "''/var/log''" "Init ''T0'' world0" "Some 0" "snd (Setup ''/var/log'' (Init ''T0'' world0))"]
    s d e
  have "trace (snd (EarlyPrintf ''hello'' (Init ''T0'' world0))) =
          trace (Init ''T0'' world0) @
            [Written 0 (Out (loggers (Init ''T0'' world0) ! 0)) InfoLevel ''hello''] \<and>
        trace (snd (EarlyFatal ''hello'' (Init ''T0'' world0))) =
          trace (Init ''T0'' world0) @
            [Written 0 (Out (loggers (Init ''T0'' world0) ! 0)) FatalLevel ''hello'', ExitCall 0 1] \<and>
        EarlyPrintf ''hello'' (snd (Setup ''/var/log'' (Init ''T0'' world0))) =
          (Return (), snd (Setup ''/var/log'' (Init ''T0'' world0))) \<and>
        EarlyFatal ''hello'' (snd (Setup ''/var/log'' (Init ''T0'' world0))) =
          (Return (), snd (Setup ''/var/log'' (Init ''T0'' world0)))"
    by blast
  with Setup_Return_configured [OF s] s d e show ?thesis
    by (simp only: simp_thms)
qed



text \<open>
  C7, as the code has it. \<open>Init\<close> yields a map that is not configured, whose logger map
  holds exactly the key \<open>__early\<close>, whose handle map is empty (the sentinel has no file
  writer), and whose sentinel logger writes to \<^verbatim>\<open>reopen.Stderr\<close> at \<^verbatim>\<open>DebugLevel\<close>. That
  level is not the library's most verbose one: records of \<^verbatim>\<open>TraceLevel\<close> do not pass.
\<close>

theorem Init_sentinel:
  "configured (lhm (Init t w)) = False \<and>
   lmap (lhm (Init t w)) = [''__early'' \<mapsto> Addr (length (loggers w))] \<and>
   dom (lmap (lhm (Init t w))) = {''__early''} \<and>
   hmap (lhm (Init t w)) = Map.empty \<and>
   GetFileHandle ''__early'' (Init t w) = nil \<and>
   (\<exists>lg. deref (loggers (Init t w)) (GetLogger ''__early'' (Init t w)) =
            Some (length (loggers w), lg) \<and>
         Out lg = reopen_Stderr \<and> Level lg = DebugLevel \<and>
         IsLevelEnabled lg DebugLevel \<and> \<not> IsLevelEnabled lg TraceLevel)"
  by (simp add: Init_eq GetFileHandle_def GetLogger_def map_get_def deref_def
      IsLevelEnabled_def level_defs)

theorem Init_sentinel_witness:
  "configured (lhm (Init ''T0'' world0)) = False \<and>
   dom (lmap (lhm (Init ''T0'' world0))) = {''__early''} \<and>
   GetLogger ''__early'' (Init ''T0'' world0) = Addr 0 \<and>
   Level (loggers (Init ''T0'' world0) ! 0) = 5"
  using Init_sentinel [of "''T0''" world0]
  by (auto simp: world0_def DebugLevel_def dest!: deref_SomeD)

text \<open>
  C7 as stated fails: of the levels that the library declares, \<^verbatim>\<open>TraceLevel\<close> is the most
  verbose, and the sentinel made by \<open>Init\<close> is not at that level and filters its records.
\<close>

theorem Init_level_counterexample:
  "Level (loggers (Init ''T0'' world0) ! 0) \<noteq> TraceLevel \<and>
   TraceLevel \<in> set AllLevels \<and>
   \<not> IsLevelEnabled (loggers (Init ''T0'' world0) ! 0) TraceLevel"
  by (simp add: Init_eq world0_def level_defs AllLevels_def IsLevelEnabled_def)

text \<open>
  C8, as the code has it. A successful \<open>Open n l\<close> records two events: the rename, and
  one informational marker written by the new logger, whatever \<open>l\<close> is; the marker is
  logged while the logger still has the level \<^verbatim>\<open>logrus.New\<close> gave it (info), and the logger
  is set to \<open>l\<close> afterwards, which is its level when \<open>Open\<close> returns.
\<close>

theorem Open_marker_then_level:
  assumes "Open env n l w = (None, w')"
  shows "new_events w w' =
           [Rename (Join env (bp (lhm w)) (n @ ''.log''))
                   (Join env (bp (lhm w)) (n @ ''.log.'' @ now_rename env)),
            Written (length (loggers w)) (FileOut (length (writers w))) InfoLevel
                    (''Started logfile `'' @ n @ ''` at '' @ now_started env)] \<and>
         Level (loggers w' ! length (loggers w)) = l"
proof -
  from assms obtain fd where fd: "NewFileWriter_answer env = Inr fd"
    by (auto dest: Open_None_D)
  from assms show ?thesis
    unfolding Open_ok_eq [OF fd] new_events_def by auto
qed

theorem Open_marker_then_level_witness:
  "Open env0 ''app'' ErrorLevel (snd (New ''/var/log'' world0)) =
     (None, snd (Open env0 ''app'' ErrorLevel (snd (New ''/var/log'' world0)))) \<and>
   new_events (snd (New ''/var/log'' world0))
      (snd (Open env0 ''app'' ErrorLevel (snd (New ''/var/log'' world0)))) =
     [Rename ''/var/log/app.log'' ''/var/log/app.log.2020-01-01T00:00:00Z'',
      Written 0 (FileOut 0) InfoLevel ''Started logfile `app` at 2020-01-01T00:00:01Z''] \<and>
   Level (loggers (snd (Open env0 ''app'' ErrorLevel (snd (New ''/var/log'' world0)))) ! 0) =
     ErrorLevel"
proof -
  have fd: "NewFileWriter_answer env0 = Inr 3"
    by (simp add: env0_def)
  have h: "Open env0 ''app'' ErrorLevel (snd (New ''/var/log'' world0)) =
     (None, snd (Open env0 ''app'' ErrorLevel (snd (New ''/var/log'' world0))))"
    by (simp add: Open_ok_eq [OF fd])
  from Open_marker_then_level [OF h] h show ?thesis
    by (simp add: New_eq world0_def env0_def)
qed

text \<open>
  C8 as stated fails. With the requested level \<^verbatim>\<open>ErrorLevel\<close>, \<open>Open\<close> writes the marker;
  had the logger been set to the requested level before the marker was logged, as in
  \<open>Open_level_first\<close>, the marker would have been filtered.
\<close>

theorem Open_level_first_counterexample:
  "trace (snd (Open env0 ''app'' ErrorLevel (snd (New ''/var/log'' world0)))) =
     [Notify 0,
      Rename ''/var/log/app.log'' ''/var/log/app.log.2020-01-01T00:00:00Z'',
      Written 0 (FileOut 0) InfoLevel ''Started logfile `app` at 2020-01-01T00:00:01Z''] \<and>
   trace (snd (Open_level_first env0 ''app'' ErrorLevel (snd (New ''/var/log'' world0)))) =
     [Notify 0,
      Rename ''/var/log/app.log'' ''/var/log/app.log.2020-01-01T00:00:00Z''] \<and>
   Open env0 ''app'' ErrorLevel (snd (New ''/var/log'' world0)) \<noteq>
   Open_level_first env0 ''app'' ErrorLevel (snd (New ''/var/log'' world0))"
proof -
  have a: "trace (snd (Open env0 ''app'' ErrorLevel (snd (New ''/var/log'' world0)))) =
     [Notify 0,
      Rename ''/var/log/app.log'' ''/var/log/app.log.2020-01-01T00:00:00Z'',
      Written 0 (FileOut 0) InfoLevel ''Started logfile `app` at 2020-01-01T00:00:01Z'']"
    by (simp add: Open_def Let_def logger_defs level_defs Add_def env0_def New_eq world0_def)
  have b: "trace (snd (Open_level_first env0 ''app'' ErrorLevel (snd (New ''/var/log'' world0)))) =
     [Notify 0,
      Rename ''/var/log/app.log'' ''/var/log/app.log.2020-01-01T00:00:00Z'']"
    by (simp add: Open_level_first_def Let_def logger_defs level_defs Add_def env0_def New_eq
        world0_def)
  from a b have "Open env0 ''app'' ErrorLevel (snd (New ''/var/log'' world0)) \<noteq>
   Open_level_first env0 ''app'' ErrorLevel (snd (New ''/var/log'' world0))"
    by auto
  with a b show ?thesis by blast
qed

text \<open>
  C10. On the map made by \<open>Init\<close>, \<open>EarlyFatal\<close> writes the message at fatal level through
  the sentinel logger, calls the sentinel's exit function with code 1 and returns: that
  function has an empty body, so the process goes on. The map, the loggers and the
  writers are as before; only the two events are added. The same holds in every later
  state in which the map is still not configured and the sentinel still has that exit
  function.
\<close>

theorem EarlyFatal_after_Init:
  "EarlyFatal msg (Init t w) =
     (Return (),
      emit (ExitCall (length (loggers w)) 1)
        (emit (Written (length (loggers w)) reopen_Stderr FatalLevel msg) (Init t w))) \<and>
   lhm (snd (EarlyFatal msg (Init t w))) = lhm (Init t w) \<and>
   loggers (snd (EarlyFatal msg (Init t w))) = loggers (Init t w) \<and>
   writers (snd (EarlyFatal msg (Init t w))) = writers (Init t w) \<and>
   ExitFunc (loggers (Init t w) ! length (loggers w)) = func_empty \<and>
   (\<not> configured (lhm v) \<and>
    deref (loggers v) (map_get (lmap (lhm v)) ''__early'') = Some (a, lg) \<and>
    ExitFunc lg = func_empty \<longrightarrow>
      fst (EarlyFatal msg v) = Return () \<and>
      lhm (snd (EarlyFatal msg v)) = lhm v \<and>
      loggers (snd (EarlyFatal msg v)) = loggers v \<and>
      writers (snd (EarlyFatal msg v)) = writers v)"
proof -
  have g: "fst (EarlyFatal msg v) = Return () \<and>
      lhm (snd (EarlyFatal msg v)) = lhm v \<and>
      loggers (snd (EarlyFatal msg v)) = loggers v \<and>
      writers (snd (EarlyFatal msg v)) = writers v"
    if "\<not> configured (lhm v)"
      "deref (loggers v) (map_get (lmap (lhm v)) ''__early'') = Some (a, lg)"
      "ExitFunc lg = func_empty"
    using that deref_SomeD [OF that(2)]
    by (simp add: EarlyFatal_def Logger_Fatal_def Logger_Exit_def Logger_Log_def emit_def Let_def)
  have i: "EarlyFatal msg (Init t w) =
     (Return (),
      emit (ExitCall (length (loggers w)) 1)
        (emit (Written (length (loggers w)) reopen_Stderr FatalLevel msg) (Init t w))) \<and>
   lhm (snd (EarlyFatal msg (Init t w))) = lhm (Init t w) \<and>
   loggers (snd (EarlyFatal msg (Init t w))) = loggers (Init t w) \<and>
   writers (snd (EarlyFatal msg (Init t w))) = writers (Init t w) \<and>
   ExitFunc (loggers (Init t w) ! length (loggers w)) = func_empty"
    by (simp add: Init_eq EarlyFatal_def map_get_def deref_def logger_defs level_defs)
  from g i show ?thesis by blast
qed

theorem EarlyFatal_after_Init_witness:
  "fst (EarlyFatal ''boom'' (Init ''T0'' world0)) = Return () \<and>
   trace (snd (EarlyFatal ''boom'' (Init ''T0'' world0))) =
     [Written 0 reopen_Stderr InfoLevel ''Started early logging at T0'',
      Written 0 reopen_Stderr FatalLevel ''boom'', ExitCall 0 1] \<and>
   \<not> configured (lhm (snd (Open env0 ''app'' WarnLevel (Init ''T0'' world0)))) \<and>
   fst (EarlyFatal ''boom'' (snd (Open env0 ''app'' WarnLevel (Init ''T0'' world0)))) = Return ()"
proof -
  have fd: "NewFileWriter_answer env0 = Inr 3"
    by (simp add: env0_def)
  have h: "\<not> configured (lhm (snd (Open env0 ''app'' WarnLevel (Init ''T0'' world0)))) \<and>
    deref (loggers (snd (Open env0 ''app'' WarnLevel (Init ''T0'' world0))))
      (map_get (lmap (lhm (snd (Open env0 ''app'' WarnLevel (Init ''T0'' world0))))) ''__early'') =
      Some (0, \<lparr>Out = reopen_Stderr, Formatter = \<lparr>DisableColors = True, FullTimestamp = True\<rparr>,
                 Level = DebugLevel, ExitFunc = func_empty\<rparr>) \<and>
    ExitFunc \<lparr>Out = reopen_Stderr, Formatter = \<lparr>DisableColors = True, FullTimestamp = True\<rparr>,
                 Level = DebugLevel, ExitFunc = func_empty\<rparr> = func_empty"
    unfolding Open_ok_eq [OF fd]
    by (simp add: Init_eq world0_def map_get_def deref_def)
  from EarlyFatal_after_Init [of "''boom''" "''T0''" world0
      "snd (Open env0 ''app'' WarnLevel (Init ''T0'' world0))" 0
      "\<lparr>Out = reopen_Stderr, Formatter = \<lparr>DisableColors = True, FullTimestamp = True\<rparr>,
                 Level = DebugLevel, ExitFunc = func_empty\<rparr>"] h
  show ?thesis
    by (simp add: emit_def Init_eq world0_def)
qed

section \<open>Claims about the rotation pass\<close>

text \<open>
  C9. With the empty string as prefix to ignore, every name has the prefix, so a pass
  skips every entry and leaves the state as it was (no writer reopened, no event
  recorded), in whatever order the names come; and \<open>Reopen\<close>, after any number of
  triggers, waits in the state it started from.
\<close>

theorem Reopen_empty_prefix_skips_all:
  "HasPrefix n [] \<and> pass [] env w = (Completed, w) \<and> Reopen [] envs w = (Waiting, w)"
proof -
  have p: "pass [] e v = (Completed, v)" for e v
    by (simp add: pass_def fileloop_skip_all)
  have "Reopen [] envs w = (Waiting, w)"
    by (induction envs) (simp_all add: p split: option.splits)
  with p show ?thesis by (simp add: HasPrefix_Nil)
qed

theorem Reopen_empty_prefix_skips_all_witness:
  "HasPrefix ''app'' [] \<and>
   pass [] penv_fail world3 = (Completed, world3) \<and>
   Reopen [] [penv_fail, penv_ok, penv_fail] world3 = (Waiting, world3)"
  using Reopen_empty_prefix_skips_all [of "''app''" penv_fail world3 "[penv_fail, penv_ok, penv_fail]"]
  by simp

text \<open>
  C1, as the code has it. Take a pass that visits the names in the order
  \<open>pre @ b # post\<close>; let the visits of \<open>pre\<close> go through, let \<open>b\<close> not be skipped and
  have a writer, and let the reopen of that writer fail with \<open>e\<close>. Then, in every registry:
  the pass ends aborted with \<open>e\<close>; the abort callback is called exactly once in the pass,
  with \<open>e\<close>; after the visits of \<open>pre\<close> the pass does the failing reopen and the abort
  call and nothing more, so no entry of \<open>post\<close> is visited and nothing is tried again;
  \<open>Reopen\<close> then waits for the next trigger; and for every entry of \<open>pre\<close> that is not
  skipped the reopen was answered with a descriptor and the marker was written. If moreover
  no two entries share a writer or a logger, then the failing writer was reopened once
  only, every entry of \<open>pre\<close> that is not skipped still holds its reopened file when the
  pass ends, and every entry of \<open>post\<close> is untouched: its writer is as it was before the
  pass and its logger wrote nothing.
\<close>

theorem pass_abort:
  assumes ord: "order env = pre @ b # post"
    and reach: "fst (fileloop pfx env pre w) = Completed"
    and nskip: "\<not> HasPrefix b pfx"
    and bw: "deref (writers w) (GetFileHandle b w) = Some (fa, fw)"
    and fail: "Reopen_answer env b = Inl e"
  shows "fst (pass pfx env w) = Aborted e \<and>
         filter is_AbortCall (new_events w (snd (pass pfx env w))) = [AbortCall e] \<and>
         new_events w (snd (pass pfx env w)) =
           new_events w (snd (fileloop pfx env pre w)) @ [ReopenCall fa (Inl e), AbortCall e] \<and>
         pass pfx env w = fileloop pfx env (pre @ [b]) w \<and>
         (signal (lhm w) \<noteq> None \<longrightarrow> Reopen pfx [env] w = (Waiting, snd (pass pfx env w))) \<and>
         (\<forall>n\<in>set pre. \<not> HasPrefix n pfx \<longrightarrow> visited_and_marked env w (snd (pass pfx env w)) n) \<and>
         (distinct (order env) \<and> unshared (hmap (lhm w)) (order env) \<and>
          unshared (lmap (lhm w)) (order env) \<longrightarrow>
            filter (reopen_of fa) (new_events w (snd (pass pfx env w))) = [ReopenCall fa (Inl e)] \<and>
            (\<forall>n\<in>set pre. \<not> HasPrefix n pfx \<longrightarrow>
               reopened_and_marked env w (snd (pass pfx env w)) n) \<and>
            (\<forall>n\<in>set post. untouched w (snd (pass pfx env w)) n))"
proof -
  obtain w1 where r: "fileloop pfx env pre w = (Completed, w1)"
    using reach by (cases "fileloop pfx env pre w") auto
  note s1 = fileloop_summary [OF r]
  from s1 have f1: "lhm w1 = lhm w" "loggers w1 = loggers w"
      "length (writers w1) = length (writers w)"
    and t1: "trace w1 = trace w @ new_events w w1"
    and a1: "filter is_AbortCall (new_events w w1) = []"
    by blast+
  from bw have bfa: "map_get (hmap (lhm w)) b = Addr fa" "fa < length (writers w)"
    by (auto simp: GetFileHandle_def dest!: deref_SomeD)
  then have d1: "deref (writers w1) (map_get (hmap (lhm w1)) b) = Some (fa, writers w1 ! fa)"
    by (simp add: deref_def f1)
  define w2 where "w2 = w1\<lparr>writers := (writers w1)[fa := (writers w1 ! fa)\<lparr>fw_f := None\<rparr>],
                          trace := trace w1 @ [ReopenCall fa (Inl e), AbortCall e]\<rparr>"
  have v: "fileloop pfx env [b] w1 = (Aborted e, w2)"
    unfolding w2_def by (rule visit_fail [OF nskip d1 fail])
  from fileloop_append_Completed [OF r, of "b # post"]
  have "fileloop pfx env (pre @ b # post) w = fileloop pfx env (b # post) w1" by simp
  also have "\<dots> = (Aborted e, w2)"
    by (simp add: fileloop_Cons [of pfx env b post w1] v)
  finally have p: "pass pfx env w = (Aborted e, w2)"
    by (simp add: pass_def ord)
  from fileloop_append_Completed [OF r, of "[b]"] v
  have pb: "fileloop pfx env (pre @ [b]) w = (Aborted e, w2)" by simp
  have t2: "trace w2 = trace w1 @ new_events w1 w2"
    and n12: "new_events w1 w2 = [ReopenCall fa (Inl e), AbortCall e]"
    by (simp_all add: w2_def new_events_def)
  from new_events_trans [OF t1 t2] n12
  have ne: "new_events w w2 = new_events w w1 @ [ReopenCall fa (Inl e), AbortCall e]"
    by simp
  have lhm2: "lhm w2 = lhm w" "loggers w2 = loggers w"
    by (simp_all add: w2_def f1)
  have others: "writers w2 ! fa' = writers w1 ! fa'" if "fa' \<noteq> fa" for fa'
    using that by (simp add: w2_def)
  have c1: "filter is_AbortCall (new_events w w2) = [AbortCall e]"
    using a1 ne by simp
  have c3: "new_events w w2 =
              new_events w (snd (fileloop pfx env pre w)) @ [ReopenCall fa (Inl e), AbortCall e]"
    using ne r by simp
  have c6: "signal (lhm w) \<noteq> None \<longrightarrow> Reopen pfx [env] w = (Waiting, w2)"
    using p by auto
  have c7: "\<forall>n\<in>set pre. \<not> HasPrefix n pfx \<longrightarrow> visited_and_marked env w w2 n"
  proof (intro ballI impI)
    fix n assume n: "n \<in> set pre" and np: "\<not> HasPrefix n pfx"
    from fileloop_Completed_events [OF r] n np
    have "visited_and_marked env w w1 n" by blast
    then show "visited_and_marked env w w2 n"
      unfolding visited_and_marked_iff using ne by auto
  qed
  have inv: "filter (reopen_of fa) (new_events w w2) = [ReopenCall fa (Inl e)] \<and>
             (\<forall>n\<in>set pre. \<not> HasPrefix n pfx \<longrightarrow> reopened_and_marked env w w2 n) \<and>
             (\<forall>n\<in>set post. untouched w w2 n)"
    if dist: "distinct (order env)"
      and uw: "unshared (hmap (lhm w)) (order env)"
      and ul: "unshared (lmap (lhm w)) (order env)"
  proof -
    have b_in: "b \<in> set (order env)" and pre_in: "set pre \<subseteq> set (order env)"
      and post_in: "set post \<subseteq> set (order env)"
      by (auto simp: ord)
    have pre_b: "k \<noteq> b" if "k \<in> set pre" for k
      using that dist by (auto simp: ord)
    have post_b: "k \<noteq> b" if "k \<in> set post" for k
      using that dist by (auto simp: ord)
    have pre_post: "k \<noteq> k'" if "k \<in> set pre" "k' \<in> set post" for k k'
      using that dist by (auto simp: ord)
    have pre_not_fa: "\<forall>k\<in>set pre. HasPrefix k pfx \<or> map_get (hmap (lhm w)) k \<noteq> Addr fa"
    proof
      fix k assume k: "k \<in> set pre"
      from unshared_other [OF uw b_in _ _ bfa(1), of k] k pre_in pre_b [OF k]
      show "HasPrefix k pfx \<or> map_get (hmap (lhm w)) k \<noteq> Addr fa" by blast
    qed
    with s1 [of _ fa] have r1: "filter (reopen_of fa) (new_events w w1) = []" by blast
    have c2: "filter (reopen_of fa) (new_events w w2) = [ReopenCall fa (Inl e)]"
      using r1 ne by simp
    have c4: "\<forall>n\<in>set pre. \<not> HasPrefix n pfx \<longrightarrow> reopened_and_marked env w w2 n"
    proof (intro ballI impI)
      fix n assume n: "n \<in> set pre" and np: "\<not> HasPrefix n pfx"
      from dist have dp: "distinct pre" by (simp add: ord)
      from unshared_subset [OF uw pre_in] have up: "unshared (hmap (lhm w)) pre" .
      from fileloop_Completed [OF r] dp up n np
      have "reopened_and_marked env w w1 n" by blast
      then obtain fa' fd la lg where
        h: "map_get (hmap (lhm w)) n = Addr fa'" "fa' < length (writers w)"
          "Reopen_answer env n = Inr fd" "fw_f (writers w1 ! fa') = Some fd"
          "deref (loggers w) (map_get (lmap (lhm w)) n) = Some (la, lg)"
          "ReopenCall fa' (Inr fd) \<in> set (new_events w w1)"
          "Written la (Out lg) InfoLevel (marker env n) \<in> set (new_events w w1)"
        unfolding reopened_and_marked_iff by blast
      from unshared_other [OF uw _ b_in _ h(1)] n pre_in pre_b [OF n] bfa(1)
      have "fa' \<noteq> fa" by auto
      with h others [of fa'] ne show "reopened_and_marked env w w2 n"
        unfolding reopened_and_marked_iff by auto
    qed
    have c5: "\<forall>n\<in>set post. untouched w w2 n"
    proof
      fix n assume n: "n \<in> set post"
      have wr: "writers w2 ! fa' = writers w ! fa' \<and> filter (reopen_of fa') (new_events w w2) = []"
        if g: "GetFileHandle n w = Addr fa'" for fa'
      proof -
        from g have m: "map_get (hmap (lhm w)) n = Addr fa'"
          by (simp add: GetFileHandle_def)
        from unshared_other [OF uw _ b_in _ m] n post_in post_b [OF n] bfa(1)
        have ne_fa: "fa' \<noteq> fa" by auto
        have "\<forall>k\<in>set pre. HasPrefix k pfx \<or> map_get (hmap (lhm w)) k \<noteq> Addr fa'"
        proof
          fix k assume k: "k \<in> set pre"
          from unshared_other [OF uw _ _ _ m, of k] n k pre_in post_in pre_post [OF k n]
          show "HasPrefix k pfx \<or> map_get (hmap (lhm w)) k \<noteq> Addr fa'" by blast
        qed
        with s1 [of _ fa']
        have "filter (reopen_of fa') (new_events w w1) = []" "writers w1 ! fa' = writers w ! fa'"
          by blast+
        with ne_fa others [of fa'] ne show ?thesis by simp
      qed
      have lg: "filter (written_by la) (new_events w w2) = []"
        if g: "GetLogger n w = Addr la" for la
      proof -
        from g have m: "map_get (lmap (lhm w)) n = Addr la"
          by (simp add: GetLogger_def)
        have "\<forall>k\<in>set pre. HasPrefix k pfx \<or> map_get (lmap (lhm w)) k \<noteq> Addr la"
        proof
          fix k assume k: "k \<in> set pre"
          from unshared_other [OF ul _ _ _ m, of k] n k pre_in post_in pre_post [OF k n]
          show "HasPrefix k pfx \<or> map_get (lmap (lhm w)) k \<noteq> Addr la" by blast
        qed
        with s1 [of la] have "filter (written_by la) (new_events w w1) = []" by blast
        with ne show ?thesis by simp
      qed
      from wr lg lhm2 show "untouched w w2 n"
        unfolding untouched_iff by (simp add: GetFileHandle_def GetLogger_def)
    qed
    from c2 c4 c5 show ?thesis by blast
  qed
  have fin: "fst (pass pfx env w) = Aborted e" "snd (pass pfx env w) = w2"
    using p by simp_all
  show ?thesis
    unfolding fin using c1 c3 c6 c7 inv p pb by simp
qed

theorem pass_abort_witness:
  "fst (pass ''sys'' penv_fail world3) = Aborted ''permission denied'' \<and>
   new_events world3 (snd (pass ''sys'' penv_fail world3)) =
     [ReopenCall 0 (Inr 9),
      Written 0 (FileOut 0) InfoLevel ''Reopened logfile `app` for logrotate at 2020-01-02T00:00:00Z'',
      ReopenCall 1 (Inl ''permission denied''),
      AbortCall ''permission denied''] \<and>
   filter is_AbortCall (new_events world3 (snd (pass ''sys'' penv_fail world3))) =
     [AbortCall ''permission denied''] \<and>
   distinct (order penv_fail) \<and> unshared (hmap (lhm world3)) (order penv_fail) \<and>
   unshared (lmap (lhm world3)) (order penv_fail) \<and>
   visited_and_marked penv_fail world3 (snd (pass ''sys'' penv_fail world3)) ''app'' \<and>
   reopened_and_marked penv_fail world3 (snd (pass ''sys'' penv_fail world3)) ''app'' \<and>
   untouched world3 (snd (pass ''sys'' penv_fail world3)) ''web'' \<and>
   Reopen ''sys'' [penv_fail] world3 = (Waiting, snd (pass ''sys'' penv_fail world3)) \<and>
   fw_f (writers world3 ! 0) = Some 3 \<and>
   fw_f (writers (snd (pass ''sys'' penv_fail world3)) ! 0) = Some 9 \<and>
   writers (snd (pass ''sys'' penv_fail world3)) ! 2 = writers world3 ! 2"
proof -
  have h1: "order penv_fail = [''app''] @ ''db'' # [''web'']"
    by (simp add: penv_fail_def)
  have h2: "distinct (order penv_fail)"
    by (simp add: penv_fail_def)
  have h3: "unshared (hmap (lhm world3)) (order penv_fail)"
    by (simp add: penv_fail_def world3_eq eval_defs)
  have h4: "unshared (lmap (lhm world3)) (order penv_fail)"
    by (simp add: penv_fail_def world3_eq eval_defs)
  have h5: "fst (fileloop ''sys'' penv_fail [''app''] world3) = Completed"
    by (simp add: fileloop.simps penv_fail_def world3_eq eval_defs logger_defs level_defs Let_def)
  have h6: "\<not> HasPrefix ''db'' ''sys''"
    by (simp add: HasPrefix_def)
  have h7: "deref (writers world3) (GetFileHandle ''db'' world3) =
              Some (1, \<lparr>fw_name = ''/var/log/db.log'', fw_f = Some 3\<rparr>)"
    by (simp add: world3_eq eval_defs)
  have h8: "Reopen_answer penv_fail ''db'' = Inl ''permission denied''"
    by (simp add: penv_fail_def)
  have ev: "new_events world3 (snd (pass ''sys'' penv_fail world3)) =
     [ReopenCall 0 (Inr 9),
      Written 0 (FileOut 0) InfoLevel ''Reopened logfile `app` for logrotate at 2020-01-02T00:00:00Z'',
      ReopenCall 1 (Inl ''permission denied''),
      AbortCall ''permission denied'']"
    by (simp add: pass_def fileloop.simps penv_fail_def world3_eq eval_defs logger_defs level_defs
        Let_def new_events_def)
  have sg: "signal (lhm world3) \<noteq> None"
    by (simp add: world3_eq)
  have g: "GetFileHandle ''app'' world3 = Addr 0 \<and> GetFileHandle ''web'' world3 = Addr 2 \<and>
           Reopen_answer penv_fail ''app'' = Inr 9 \<and> fw_f (writers world3 ! 0) = Some 3 \<and>
           deref (loggers world3) (GetLogger ''app'' world3) = Some (0, loggers world3 ! 0)"
    by (simp add: world3_eq penv_fail_def eval_defs)
  note T = pass_abort [OF h1 h5 h6 h7 h8]
  from T have t1: "fst (pass ''sys'' penv_fail world3) = Aborted ''permission denied''"
    and t2: "filter is_AbortCall (new_events world3 (snd (pass ''sys'' penv_fail world3))) =
               [AbortCall ''permission denied'']"
    and t3: "\<forall>n\<in>set [''app'']. \<not> HasPrefix n ''sys'' \<longrightarrow>
               visited_and_marked penv_fail world3 (snd (pass ''sys'' penv_fail world3)) n"
    by blast+
  from T sg have t4: "Reopen ''sys'' [penv_fail] world3 = (Waiting, snd (pass ''sys'' penv_fail world3))"
    by blast
  from T h2 h3 h4
  have t5: "\<forall>n\<in>set [''app'']. \<not> HasPrefix n ''sys'' \<longrightarrow>
               reopened_and_marked penv_fail world3 (snd (pass ''sys'' penv_fail world3)) n"
    and t6: "\<forall>n\<in>set [''web'']. untouched world3 (snd (pass ''sys'' penv_fail world3)) n"
    by blast+
  from t3 have v: "visited_and_marked penv_fail world3 (snd (pass ''sys'' penv_fail world3)) ''app''"
    by (simp add: HasPrefix_def)
  from t5 have ra: "reopened_and_marked penv_fail world3 (snd (pass ''sys'' penv_fail world3)) ''app''"
    by (simp add: HasPrefix_def)
  from t6 have u: "untouched world3 (snd (pass ''sys'' penv_fail world3)) ''web''"
    by simp
  from ra g have f0: "fw_f (writers (snd (pass ''sys'' penv_fail world3)) ! 0) = Some 9"
    by (simp add: reopened_and_marked_def)
  from u g have f2: "writers (snd (pass ''sys'' penv_fail world3)) ! 2 = writers world3 ! 2"
    by (simp add: untouched_def)
  from t1 t2 t4 v ra u f0 f2 ev h2 h3 h4 g show ?thesis
    by (simp only: simp_thms)
qed

text \<open>
  C1 as stated fails where two names hold the same writer, which \<^verbatim>\<open>Add\<close> permits. In the
  registry \<open>world_shared\<close> the pass visits \<open>app\<close> first and its reopen fails; \<open>alias\<close> is not
  visited, yet the writer it holds is no longer in its state of before the pass: the
  failed reopen has closed its file.
\<close>

theorem pass_abort_shared_counterexample:
  "fst (pass ''sys'' penv_shared_fail world_shared) = Aborted ''permission denied'' \<and>
   order penv_shared_fail = [''app'', ''alias''] \<and>
   new_events world_shared (snd (pass ''sys'' penv_shared_fail world_shared)) =
     [ReopenCall 0 (Inl ''permission denied''), AbortCall ''permission denied''] \<and>
   GetFileHandle ''alias'' world_shared = Addr 0 \<and>
   fw_f (writers world_shared ! 0) = Some 3 \<and>
   fw_f (writers (snd (pass ''sys'' penv_shared_fail world_shared)) ! 0) = None \<and>
   \<not> untouched world_shared (snd (pass ''sys'' penv_shared_fail world_shared)) ''alias''"
  by (simp add: pass_def fileloop.simps penv_shared_fail_def world_shared_eq eval_defs emit_def
      new_events_def untouched_def)

text \<open>
  C2. Take a pass that visits the names in the order \<open>pre @ n # post\<close>; let the visits of
  \<open>pre\<close> go through and end in state \<open>w1\<close>, let \<open>n\<close> not be skipped, have a writer
  whose reopen succeeds, and have a logger. Then the visit of \<open>n\<close> goes through and records
  exactly two events: the reopen, and one marker for \<open>n\<close> with the reading of the clock at
  that visit, written at info level by the logger of \<open>n\<close>; when the visit ends, and when
  the pass ends, the level of that logger is what it was before the pass. The events of the
  pass are those of the visits of \<open>pre\<close>, these two, and those of the visits of \<open>post\<close>.
  Counted by logger, whether or not loggers are shared: up to the end of the visit of
  \<open>n\<close>, and over the whole pass when it completes, the logger of \<open>n\<close> has written one
  marker for each entry visited and not skipped that holds it, in the order of the visits,
  and nothing else; so where no other entry holds it, it has written the marker of \<open>n\<close>
  and nothing else.
\<close>

theorem pass_marks_and_restores:
  assumes ord: "order env = pre @ n # post"
    and reach: "fileloop pfx env pre w = (Completed, w1)"
    and nskip: "\<not> HasPrefix n pfx"
    and nw: "deref (writers w) (GetFileHandle n w) = Some (fa, fw)"
    and ok: "Reopen_answer env n = Inr fd"
    and nl: "deref (loggers w) (GetLogger n w) = Some (la, lg)"
  shows "fst (fileloop pfx env [n] w1) = Completed \<and>
         new_events w1 (snd (fileloop pfx env [n] w1)) =
           [ReopenCall fa (Inr fd),
            Written la (Out lg) InfoLevel
              (''Reopened logfile `'' @ n @ ''` for logrotate at '' @ now_at env n)] \<and>
         Level (loggers (snd (fileloop pfx env [n] w1)) ! la) = Level lg \<and>
         pass pfx env w = fileloop pfx env post (snd (fileloop pfx env [n] w1)) \<and>
         new_events w (snd (pass pfx env w)) =
           new_events w w1 @ new_events w1 (snd (fileloop pfx env [n] w1)) @
           new_events (snd (fileloop pfx env [n] w1)) (snd (pass pfx env w)) \<and>
         GetLogger n (snd (pass pfx env w)) = Addr la \<and>
         Level (loggers (snd (pass pfx env w)) ! la) = Level lg \<and>
         filter (written_by la) (new_events w (snd (fileloop pfx env [n] w1))) =
           map (\<lambda>k. Written la (Out lg) InfoLevel (marker env k))
             (filter (\<lambda>k. \<not> HasPrefix k pfx \<and> GetLogger k w = Addr la) (pre @ [n])) \<and>
         (fst (pass pfx env w) = Completed \<longrightarrow>
            filter (written_by la) (new_events w (snd (pass pfx env w))) =
              map (\<lambda>k. Written la (Out lg) InfoLevel (marker env k))
                (filter (\<lambda>k. \<not> HasPrefix k pfx \<and> GetLogger k w = Addr la) (order env))) \<and>
         (distinct (order env) \<and> (\<forall>k\<in>set (order env). k \<noteq> n \<longrightarrow> GetLogger k w \<noteq> Addr la) \<longrightarrow>
            filter (written_by la) (new_events w (snd (pass pfx env w))) =
              [Written la (Out lg) InfoLevel
                 (''Reopened logfile `'' @ n @ ''` for logrotate at '' @ now_at env n)])"
proof -
  note r = reach
  note s1 = fileloop_summary [OF r]
  from s1 have f1: "lhm w1 = lhm w" "loggers w1 = loggers w"
      "length (writers w1) = length (writers w)"
    and t1: "trace w1 = trace w @ new_events w w1"
    by blast+
  from nw have nfa: "map_get (hmap (lhm w)) n = Addr fa" "fa < length (writers w)"
    by (auto simp: GetFileHandle_def dest!: deref_SomeD)
  then have d1: "deref (writers w1) (map_get (hmap (lhm w1)) n) = Some (fa, writers w1 ! fa)"
    by (simp add: deref_def f1)
  from nl have nla: "map_get (lmap (lhm w)) n = Addr la" "la < length (loggers w)"
      "loggers w ! la = lg"
    by (auto simp: GetLogger_def dest!: deref_SomeD)
  from nl have d2: "deref (loggers w1) (map_get (lmap (lhm w1)) n) = Some (la, lg)"
    by (simp add: GetLogger_def f1)
  define w2 where "w2 = w1\<lparr>writers := (writers w1)[fa := (writers w1 ! fa)\<lparr>fw_f := Some fd\<rparr>],
                          trace := trace w1 @ [ReopenCall fa (Inr fd),
                                               Written la (Out lg) InfoLevel (marker env n)]\<rparr>"
  have v: "fileloop pfx env [n] w1 = (Completed, w2)"
    unfolding w2_def by (rule visit_ok [OF nskip d1 ok d2])
  obtain out w' where q: "fileloop pfx env post w2 = (out, w')"
    by (cases "fileloop pfx env post w2") auto
  from fileloop_append_Completed [OF r, of "n # post"]
  have "fileloop pfx env (pre @ n # post) w = fileloop pfx env (n # post) w1" by simp
  also have "\<dots> = (out, w')"
    by (simp add: fileloop_Cons [of pfx env n post w1] v q)
  finally have run: "fileloop pfx env (order env) w = (out, w')"
    by (simp add: ord)
  then have p: "pass pfx env w = (out, w')"
    by (simp add: pass_def)
  from fileloop_append_Completed [OF r, of "[n]"] v
  have upto: "fileloop pfx env (pre @ [n]) w = (Completed, w2)" by simp
  have f2: "lhm w2 = lhm w" "loggers w2 = loggers w"
    by (simp_all add: w2_def f1)
  have t2: "trace w2 = trace w1 @ new_events w1 w2"
    and n12: "new_events w1 w2 = [ReopenCall fa (Inr fd), Written la (Out lg) InfoLevel (marker env n)]"
    by (simp_all add: w2_def new_events_def)
  note s3 = fileloop_summary [OF q]
  from s3 have f3: "lhm w' = lhm w2" "loggers w' = loggers w2"
    and t3: "trace w' = trace w2 @ new_events w2 w'"
    by blast+
  from new_events_trans [OF t1 t2]
  have t02: "trace w2 = trace w @ new_events w w2"
    and n02: "new_events w w2 = new_events w w1 @ new_events w1 w2" by blast+
  from new_events_trans [OF t02 t3]
  have n03: "new_events w w' = new_events w w2 @ new_events w2 w'" by blast
  have a1: "fst (fileloop pfx env [n] w1) = Completed" "snd (fileloop pfx env [n] w1) = w2"
    using v by simp_all
  have a2: "fst (pass pfx env w) = out" "snd (pass pfx env w) = w'"
    using p by simp_all
  have c1: "new_events w1 w2 =
              [ReopenCall fa (Inr fd),
               Written la (Out lg) InfoLevel
                 (''Reopened logfile `'' @ n @ ''` for logrotate at '' @ now_at env n)]"
    using n12 by (simp add: marker_def)
  have c2: "Level (loggers w2 ! la) = Level lg"
    using nla f2 by simp
  have c3: "pass pfx env w = fileloop pfx env post w2"
    using p q by simp
  have c4: "new_events w w' = new_events w w1 @ new_events w1 w2 @ new_events w2 w'"
    using n02 n03 by simp
  have c5: "GetLogger n w' = Addr la"
    using nla f2 f3 by (simp add: GetLogger_def)
  have c6: "Level (loggers w' ! la) = Level lg"
    using nla f2 f3 by simp
  have c7: "filter (written_by la) (new_events w w2) =
              map (\<lambda>k. Written la (Out lg) InfoLevel (marker env k))
                (filter (\<lambda>k. \<not> HasPrefix k pfx \<and> GetLogger k w = Addr la) (pre @ [n]))"
    using fileloop_written_by [OF upto, of la] nla(3) by (simp add: GetLogger_def)
  have c8: "filter (written_by la) (new_events w w') =
              map (\<lambda>k. Written la (Out lg) InfoLevel (marker env k))
                (filter (\<lambda>k. \<not> HasPrefix k pfx \<and> GetLogger k w = Addr la) (order env))"
    if "out = Completed"
    using fileloop_written_by [OF run, of la] nla(3) that by (simp add: GetLogger_def)
  have c9: "filter (written_by la) (new_events w w') =
              [Written la (Out lg) InfoLevel
                 (''Reopened logfile `'' @ n @ ''` for logrotate at '' @ now_at env n)]"
    if dist: "distinct (order env)"
      and own: "\<forall>k\<in>set (order env). k \<noteq> n \<longrightarrow> GetLogger k w \<noteq> Addr la"
  proof -
    have pre_n: "k \<noteq> n" if "k \<in> set pre" for k
      using that dist by (auto simp: ord)
    have post_n: "k \<noteq> n" if "k \<in> set post" for k
      using that dist by (auto simp: ord)
    have "\<forall>k\<in>set pre. HasPrefix k pfx \<or> map_get (lmap (lhm w)) k \<noteq> Addr la"
      using own pre_n by (auto simp: ord GetLogger_def)
    with s1 [of la] have e1: "filter (written_by la) (new_events w w1) = []" by blast
    have "\<forall>k\<in>set post. HasPrefix k pfx \<or> map_get (lmap (lhm w2)) k \<noteq> Addr la"
      using own post_n by (auto simp: ord GetLogger_def f2)
    with s3 [of la] have e3: "filter (written_by la) (new_events w2 w') = []" by blast
    from e1 e3 c1 c4 show ?thesis by simp
  qed
  show ?thesis
    unfolding a1 a2 using c1 c2 c3 c4 c5 c6 c7 c8 c9 by blast
qed

theorem pass_marks_and_restores_witness:
  "fst (pass ''sys'' penv_ok world3) = Completed \<and>
   filter (written_by 0) (new_events world3 (snd (pass ''sys'' penv_ok world3))) =
     [Written 0 (FileOut 0) InfoLevel
        ''Reopened logfile `app` for logrotate at 2020-01-02T00:00:00Z''] \<and>
   Level (loggers world3 ! 0) = WarnLevel \<and>
   Level (loggers (snd (pass ''sys'' penv_ok world3)) ! 0) = WarnLevel \<and>
   GetLogger ''app'' world_shared = GetLogger ''alias'' world_shared \<and>
   new_events (snd (fileloop ''sys'' penv_shared_ok [''app''] world_shared))
     (snd (fileloop ''sys'' penv_shared_ok [''alias'']
            (snd (fileloop ''sys'' penv_shared_ok [''app''] world_shared)))) =
     [ReopenCall 0 (Inr 9),
      Written 0 (FileOut 0) InfoLevel
        ''Reopened logfile `alias` for logrotate at 2020-01-02T00:00:00Z''] \<and>
   filter (written_by 0) (new_events world_shared (snd (pass ''sys'' penv_shared_ok world_shared))) =
     [Written 0 (FileOut 0) InfoLevel
        ''Reopened logfile `app` for logrotate at 2020-01-02T00:00:00Z'',
      Written 0 (FileOut 0) InfoLevel
        ''Reopened logfile `alias` for logrotate at 2020-01-02T00:00:00Z''] \<and>
   Level (loggers world_shared ! 0) = WarnLevel \<and>
   Level (loggers (snd (pass ''sys'' penv_shared_ok world_shared)) ! 0) = WarnLevel"
proof -
  have h1: "order penv_ok = [''web''] @ ''app'' # [''db'']"
    by (simp add: penv_ok_def)
  have h2: "distinct (order penv_ok)"
    by (simp add: penv_ok_def)
  have h3: "fileloop ''sys'' penv_ok [''web''] world3 =
              (Completed, snd (fileloop ''sys'' penv_ok [''web''] world3))"
    by (simp add: fileloop.simps penv_ok_def world3_eq eval_defs logger_defs level_defs Let_def)
  have h4: "\<not> HasPrefix ''app'' ''sys''"
    by (simp add: HasPrefix_def)
  have h5: "deref (writers world3) (GetFileHandle ''app'' world3) =
              Some (0, \<lparr>fw_name = ''/var/log/app.log'', fw_f = Some 3\<rparr>)"
    by (simp add: world3_eq eval_defs)
  have h6: "Reopen_answer penv_ok ''app'' = Inr 9"
    by (simp add: penv_ok_def)
  have h7: "deref (loggers world3) (GetLogger ''app'' world3) =
              Some (0, \<lparr>Out = FileOut 0, Formatter = \<lparr>DisableColors = True, FullTimestamp = True\<rparr>,
                         Level = WarnLevel, ExitFunc = os_Exit\<rparr>)"
    by (simp add: world3_eq eval_defs)
  have h8: "\<forall>k\<in>set (order penv_ok). k \<noteq> ''app'' \<longrightarrow> GetLogger k world3 \<noteq> Addr 0"
    by (simp add: penv_ok_def world3_eq eval_defs)
  have c: "fst (pass ''sys'' penv_ok world3) = Completed"
    by (simp add: pass_def fileloop.simps penv_ok_def world3_eq eval_defs logger_defs level_defs
        Let_def)
  have l: "Level (loggers world3 ! 0) = WarnLevel"
    by (simp add: world3_eq)
  note A = pass_marks_and_restores [OF h1 h3 h4 h5 h6 h7]
  from A h2 h8
  have a1: "filter (written_by 0) (new_events world3 (snd (pass ''sys'' penv_ok world3))) =
     [Written 0
        (Out \<lparr>Out = FileOut 0, Formatter = \<lparr>DisableColors = True, FullTimestamp = True\<rparr>,
               Level = WarnLevel, ExitFunc = os_Exit\<rparr>)
        InfoLevel (''Reopened logfile `'' @ ''app'' @ ''` for logrotate at '' @ now_at penv_ok ''app'')]"
    by blast
  from A
  have a2: "Level (loggers (snd (pass ''sys'' penv_ok world3)) ! 0) =
              Level \<lparr>Out = FileOut 0, Formatter = \<lparr>DisableColors = True, FullTimestamp = True\<rparr>,
                      Level = WarnLevel, ExitFunc = os_Exit\<rparr>"
    by blast
  have k1: "order penv_shared_ok = [''app''] @ ''alias'' # []"
    by (simp add: penv_shared_ok_def)
  have k3: "fileloop ''sys'' penv_shared_ok [''app''] world_shared =
              (Completed, snd (fileloop ''sys'' penv_shared_ok [''app''] world_shared))"
    by (simp add: fileloop.simps penv_shared_ok_def world_shared_eq eval_defs logger_defs
        level_defs Let_def)
  have k4: "\<not> HasPrefix ''alias'' ''sys''"
    by (simp add: HasPrefix_def)
  have k5: "deref (writers world_shared) (GetFileHandle ''alias'' world_shared) =
              Some (0, \<lparr>fw_name = ''/var/log/app.log'', fw_f = Some 3\<rparr>)"
    by (simp add: world_shared_eq eval_defs)
  have k6: "Reopen_answer penv_shared_ok ''alias'' = Inr 9"
    by (simp add: penv_shared_ok_def)
  have k7: "deref (loggers world_shared) (GetLogger ''alias'' world_shared) =
              Some (0, \<lparr>Out = FileOut 0, Formatter = \<lparr>DisableColors = True, FullTimestamp = True\<rparr>,
                         Level = WarnLevel, ExitFunc = os_Exit\<rparr>)"
    by (simp add: world_shared_eq eval_defs)
  have kc: "fst (pass ''sys'' penv_shared_ok world_shared) = Completed"
    by (simp add: pass_def fileloop.simps penv_shared_ok_def world_shared_eq eval_defs
        logger_defs level_defs Let_def)
  have ks: "GetLogger ''app'' world_shared = Addr 0 \<and> GetLogger ''alias'' world_shared = Addr 0 \<and>
            Level (loggers world_shared ! 0) = WarnLevel"
    by (simp add: world_shared_eq eval_defs)
  note B = pass_marks_and_restores [OF k1 k3 k4 k5 k6 k7]
  from B
  have b1: "new_events (snd (fileloop ''sys'' penv_shared_ok [''app''] world_shared))
     (snd (fileloop ''sys'' penv_shared_ok [''alias'']
            (snd (fileloop ''sys'' penv_shared_ok [''app''] world_shared)))) =
     [ReopenCall 0 (Inr 9),
      Written 0
        (Out \<lparr>Out = FileOut 0, Formatter = \<lparr>DisableColors = True, FullTimestamp = True\<rparr>,
               Level = WarnLevel, ExitFunc = os_Exit\<rparr>)
        InfoLevel
        (''Reopened logfile `'' @ ''alias'' @ ''` for logrotate at '' @ now_at penv_shared_ok ''alias'')]"
    and b2: "Level (loggers (snd (pass ''sys'' penv_shared_ok world_shared)) ! 0) =
              Level \<lparr>Out = FileOut 0, Formatter = \<lparr>DisableColors = True, FullTimestamp = True\<rparr>,
                      Level = WarnLevel, ExitFunc = os_Exit\<rparr>"
    by blast+
  from B kc
  have b3: "filter (written_by 0)
              (new_events world_shared (snd (pass ''sys'' penv_shared_ok world_shared))) =
            map (\<lambda>k. Written 0
                    (Out \<lparr>Out = FileOut 0,
                           Formatter = \<lparr>DisableColors = True, FullTimestamp = True\<rparr>,
                           Level = WarnLevel, ExitFunc = os_Exit\<rparr>)
                    InfoLevel (marker penv_shared_ok k))
              (filter (\<lambda>k. \<not> HasPrefix k ''sys'' \<and> GetLogger k world_shared = Addr 0)
                 (order penv_shared_ok))"
    by blast
  have b3': "filter (written_by 0)
              (new_events world_shared (snd (pass ''sys'' penv_shared_ok world_shared))) =
     [Written 0 (FileOut 0) InfoLevel
        ''Reopened logfile `app` for logrotate at 2020-01-02T00:00:00Z'',
      Written 0 (FileOut 0) InfoLevel
        ''Reopened logfile `alias` for logrotate at 2020-01-02T00:00:00Z'']"
    unfolding b3 using ks by (simp add: penv_shared_ok_def marker_def HasPrefix_def)
  from a1 a2 b1 b2 b3' c l ks show ?thesis
    by (simp add: penv_ok_def penv_shared_ok_def)
qed

end
